theory Spec2Isabelle
  imports Complex_Main "HOL-Library.AList"
begin

section \<open>JavaScript values and strings\<close>

text \<open>
  The decoded body of the endpoint's response is an arbitrary JSON value, and the text of
  a message read back from the store is whatever was written there, so both are values of
  the following type. Numbers only matter through their sign.
\<close>

datatype jsval =
    JUndefined
  | JNull
  | JBool bool
  | JNum rat
  | JStr string
  | JArr "jsval list"
  | JObj "(string \<times> jsval) list"

datatype error =
    TypeError
  | StoreWriteFailure
  | StoreReadFailure
  | EndpointTransportFailure
  | BodyParseFailure
  | InvalidArgument

text \<open>Sequencing of steps that may throw: the first exception ends the sequence.\<close>

definition and_then :: "error + 'a \<Rightarrow> ('a \<Rightarrow> error + 'b) \<Rightarrow> error + 'b" where
  "and_then r f = (case r of Inl e \<Rightarrow> Inl e | Inr v \<Rightarrow> f v)"

text \<open>Truthiness, as \<^verbatim>\<open>&&\<close> and \<^verbatim>\<open>!\<close> test it.\<close>

fun truthy :: "jsval \<Rightarrow> bool" where
  "truthy JUndefined = False"
| "truthy JNull = False"
| "truthy (JBool b) = b"
| "truthy (JNum n) = (n \<noteq> 0)"
| "truthy (JStr s) = (s \<noteq> [])"
| "truthy (JArr xs) = True"
| "truthy (JObj kvs) = True"

text \<open>
  Property read \<^verbatim>\<open>v.name\<close>, for the names the program reads (candidates, content, parts,
  text, length): a read on null or undefined throws, a missing property is undefined.
\<close>

fun get_prop :: "jsval \<Rightarrow> string \<Rightarrow> error + jsval" where
  "get_prop JUndefined name = Inl TypeError"
| "get_prop JNull name = Inl TypeError"
| "get_prop (JBool b) name = Inr JUndefined"
| "get_prop (JNum n) name = Inr JUndefined"
| "get_prop (JStr s) name =
     (if name = ''length'' then Inr (JNum (of_nat (length s))) else Inr JUndefined)"
| "get_prop (JArr xs) name =
     (if name = ''length'' then Inr (JNum (of_nat (length xs))) else Inr JUndefined)"
| "get_prop (JObj kvs) name =
     (case map_of kvs name of None \<Rightarrow> Inr JUndefined | Some v \<Rightarrow> Inr v)"

text \<open>Element read \<^verbatim>\<open>v[0]\<close>.\<close>

fun get_index0 :: "jsval \<Rightarrow> error + jsval" where
  "get_index0 JUndefined = Inl TypeError"
| "get_index0 JNull = Inl TypeError"
| "get_index0 (JBool b) = Inr JUndefined"
| "get_index0 (JNum n) = Inr JUndefined"
| "get_index0 (JStr s) = (case s of [] \<Rightarrow> Inr JUndefined | c # cs \<Rightarrow> Inr (JStr [c]))"
| "get_index0 (JArr xs) = (case xs of [] \<Rightarrow> Inr JUndefined | x # ys \<Rightarrow> Inr x)"
| "get_index0 (JObj kvs) =
     (case map_of kvs ''0'' of None \<Rightarrow> Inr JUndefined | Some v \<Rightarrow> Inr v)"

text \<open>
  The comparison \<^verbatim>\<open>v > 0\<close>. On a number, a boolean, null and undefined it is decided
  here. On a string, an array or an object JavaScript first converts the operand to a
  number; that conversion is left to the parameter \<open>coerce\<close>, so that every result below
  holds whatever it answers. It is reached only when an object of the response has a
  property called length that is not a number.
\<close>

fun gt_zero :: "(jsval \<Rightarrow> error + bool) \<Rightarrow> jsval \<Rightarrow> error + bool" where
  "gt_zero coerce JUndefined = Inr False"
| "gt_zero coerce JNull = Inr False"
| "gt_zero coerce (JBool b) = Inr b"
| "gt_zero coerce (JNum n) = Inr (0 < n)"
| "gt_zero coerce v = coerce v"

text \<open>
  A string is the list of the bytes of its text in UTF-8, so that a character beyond ASCII
  is a sequence of bytes, none of them an ASCII byte. The prefixes, separators and quotes
  the program looks for are ASCII.
\<close>

definition startsWith :: "string \<Rightarrow> string \<Rightarrow> bool" where
  "startsWith s p = (take (length p) s = p)"

text \<open>
  \<^verbatim>\<open>trim\<close> removes, at both ends, the white space and the line terminators of
  JavaScript: tab, line feed, vertical tab, form feed, carriage return, space, U+00A0,
  U+1680, U+2000 to U+200A, U+2028, U+2029, U+202F, U+205F, U+3000 and U+FEFF.
\<close>

definition white_space :: "string list" where
  "white_space =
     [[CHR 0x09], [CHR 0x0A], [CHR 0x0B], [CHR 0x0C], [CHR 0x0D], [CHR 0x20],
      [CHR 0xC2, CHR 0xA0],
      [CHR 0xE1, CHR 0x9A, CHR 0x80],
      [CHR 0xE2, CHR 0x80, CHR 0x80], [CHR 0xE2, CHR 0x80, CHR 0x81],
      [CHR 0xE2, CHR 0x80, CHR 0x82], [CHR 0xE2, CHR 0x80, CHR 0x83],
      [CHR 0xE2, CHR 0x80, CHR 0x84], [CHR 0xE2, CHR 0x80, CHR 0x85],
      [CHR 0xE2, CHR 0x80, CHR 0x86], [CHR 0xE2, CHR 0x80, CHR 0x87],
      [CHR 0xE2, CHR 0x80, CHR 0x88], [CHR 0xE2, CHR 0x80, CHR 0x89],
      [CHR 0xE2, CHR 0x80, CHR 0x8A],
      [CHR 0xE2, CHR 0x80, CHR 0xA8], [CHR 0xE2, CHR 0x80, CHR 0xA9],
      [CHR 0xE2, CHR 0x80, CHR 0xAF],
      [CHR 0xE2, CHR 0x81, CHR 0x9F],
      [CHR 0xE3, CHR 0x80, CHR 0x80],
      [CHR 0xEF, CHR 0xBB, CHR 0xBF]]"

fun strip_leading :: "string list \<Rightarrow> string \<Rightarrow> string" where
  "strip_leading ws [] = []"
| "strip_leading ws (c # cs) =
     (case find (\<lambda>w. w \<noteq> [] \<and> startsWith (c # cs) w) ws of
        None \<Rightarrow> c # cs
      | Some w \<Rightarrow> strip_leading ws (drop (length w - 1) cs))"

definition trim :: "string \<Rightarrow> string" where
  "trim s = rev (strip_leading (map rev white_space) (rev (strip_leading white_space s)))"

text \<open>
  \<^verbatim>\<open>toLowerCase\<close> follows the case tables of Unicode, which are not part of this theory:
  the pipeline takes it from its environment, and every result holds whatever function it
  is. On the letters A to Z it is the following function, which the examples use.
\<close>

definition ascii_lower_char :: "char \<Rightarrow> char" where
  "ascii_lower_char c =
     (let n = (of_char c :: nat) in if 65 \<le> n \<and> n \<le> 90 then char_of (n + 32) else c)"

definition ascii_toLowerCase :: "string \<Rightarrow> string" where
  "ascii_toLowerCase s = map ascii_lower_char s"

definition substring :: "string \<Rightarrow> nat \<Rightarrow> string" where
  "substring s n = drop n s"

text \<open>
  \<^verbatim>\<open>s.split(sep)\<close> for a non-empty separator: the string is cut at every occurrence of
  the separator, found from left to right without overlap; the result is never empty.
  With the empty separator JavaScript cuts between all characters.
\<close>

fun split_at :: "string \<Rightarrow> string \<Rightarrow> string list" where
  "split_at sep [] = [[]]"
| "split_at sep (c # cs) =
     (if startsWith (c # cs) sep
      then [] # split_at sep (drop (length sep - 1) cs)
      else (let r = split_at sep cs in (c # hd r) # tl r))"

definition split :: "string \<Rightarrow> string \<Rightarrow> string list" where
  "split s sep = (if sep = [] then map (\<lambda>c. [c]) s else split_at sep s)"

text \<open>\<^verbatim>\<open>s.replace(/"/g, '')\<close>: every double quote is removed.\<close>

definition dquote :: char where
  "dquote = CHR 0x22"

definition replace_quotes :: "string \<Rightarrow> string" where
  "replace_quotes s = filter (\<lambda>c. c \<noteq> dquote) s"

text \<open>\<^verbatim>\<open>xs.join(sep)\<close>: the strings in their order, the separator between neighbours.\<close>

definition join :: "string \<Rightarrow> string list \<Rightarrow> string" where
  "join sep xs = (case xs of [] \<Rightarrow> [] | y # ys \<Rightarrow> y @ concat (map (\<lambda>z. sep @ z) ys))"

text \<open>\<^verbatim>\<open>s.indexOf(p) >= 0\<close>: the string \<open>p\<close> occurs in \<open>s\<close>.\<close>

fun has_indexOf :: "string \<Rightarrow> string \<Rightarrow> bool" where
  "has_indexOf [] p = (p = [])"
| "has_indexOf (c # cs) p = (startsWith (c # cs) p \<or> has_indexOf cs p)"

section \<open>Data model\<close>

record chat_message =
  sender :: string
  msg_text :: jsval

record training_pair =
  question :: string
  answer :: string

text \<open>One element of \<^verbatim>\<open>contents\<close>: a role and its parts, each part the text it holds.\<close>

record turn =
  role :: string
  parts :: "jsval list"

datatype firestore = Firestore

text \<open>
  The component's state (\<open>db\<close>, \<open>userId\<close>, \<open>isAuthReady\<close>, \<open>messages\<close>, \<open>newMessage\<close>,
  \<open>isLoading\<close>) together with the two collections of the document store it writes to and
  the requests it has handed to \<^verbatim>\<open>fetch\<close>. The chat history is kept in the order of the
  server's timestamps, which is the order of arrival. A training document is found by its
  path below the training collection, a list of segments: the documents of the collection
  itself have one segment, a longer path lies in a collection nested below it. A document
  holds the two fields the program writes and reads. \<open>addDoc_calls\<close> counts the additions
  to the chat history issued so far.
\<close>

record app_state =
  db :: "firestore option"
  userId :: "string option"
  isAuthReady :: bool
  messages :: "chat_message list"
  newMessage :: string
  isLoading :: bool
  chat_history :: "chat_message list"
  training_data :: "(string list \<times> training_pair) list"
  addDoc_calls :: nat
  requests :: "turn list list"

text \<open>
  What lies outside the program: whether the store accepts the \<open>n\<close>-th addition to the
  chat history, the write of a training document and the read of the training collection,
  what the endpoint returns, and the two conversions of the JavaScript runtime that are
  left open. Every call settles, by an answer or by a failure; a call that never settles
  would leave the handler suspended at it.
\<close>

datatype fetch_outcome = NetworkError | BodyNotJSON | Body jsval

record env =
  addDoc_ok :: "nat \<Rightarrow> bool"
  setDoc_ok :: bool
  getDocs_ok :: bool
  fetch_result :: fetch_outcome
  coerce_gt0 :: "jsval \<Rightarrow> error + bool"
  toLowerCase :: "string \<Rightarrow> string"

section \<open>The message pipeline\<close>

definition available :: "app_state \<Rightarrow> bool" where
  "available s = (db s \<noteq> None \<and> userId s \<noteq> None \<and> userId s \<noteq> Some [])"

text \<open>
  The listener on the chat history (the second effect of the component) is subscribed once
  \<open>db\<close>, \<open>userId\<close> and \<open>isAuthReady\<close> are set. Each time the collection changes it replaces
  \<open>messages\<close> by all documents of the collection, in their order.
\<close>

definition listening :: "app_state \<Rightarrow> bool" where
  "listening s = (available s \<and> isAuthReady s)"

definition onSnapshot :: "app_state \<Rightarrow> app_state" where
  "onSnapshot s = (if listening s then s\<lparr>messages := chat_history s\<rparr> else s)"

text \<open>
  An addition to the chat history. When the store accepts it, the collection has changed
  and the listener runs; when the store refuses it, the collection is as before.
\<close>

definition addDoc :: "env \<Rightarrow> chat_message \<Rightarrow> app_state \<Rightarrow> (error + unit) \<times> app_state" where
  "addDoc e m s =
     (if addDoc_ok e (addDoc_calls s)
      then (Inr (), onSnapshot (s\<lparr>chat_history := chat_history s @ [m],
                                  addDoc_calls := Suc (addDoc_calls s)\<rparr>))
      else (Inl StoreWriteFailure, s\<lparr>addDoc_calls := Suc (addDoc_calls s)\<rparr>))"

definition sendBotResponse ::
  "env \<Rightarrow> jsval \<Rightarrow> string \<Rightarrow> app_state \<Rightarrow> (error + unit) \<times> app_state" where
  "sendBotResponse e txt sndr s =
     (if \<not> available s then (Inr (), s)
      else addDoc e \<lparr>sender = sndr, msg_text = txt\<rparr> s)"

text \<open>
  \<^verbatim>\<open>doc(db, path, id)\<close> of the store's library, whose code is outside the repository. The
  path of the training collection has five segments (artifacts, the application
  identifier, users, the identity, training_data; the two identifiers are single
  segments). The library refuses an identifier that holds two slashes in a row, cuts it at
  its slashes, drops the empty pieces, and refuses the reference unless the whole path has
  an even number of segments. The result is the path below the training collection.
\<close>

definition collection_depth :: nat where
  "collection_depth = 5"

definition doc_ref :: "string \<Rightarrow> error + string list" where
  "doc_ref ident =
     (if has_indexOf ident ''//'' then Inl InvalidArgument
      else (let segments = filter (\<lambda>seg. seg \<noteq> []) (split ident ''/'')
            in if even (collection_depth + length segments) then Inr segments
               else Inl InvalidArgument))"

definition saveTrainingData ::
  "env \<Rightarrow> string \<Rightarrow> string \<Rightarrow> app_state \<Rightarrow> (error + unit) \<times> app_state" where
  "saveTrainingData e q a s =
     (if \<not> available s then (Inr (), s)
      else (case doc_ref (toLowerCase e q) of
              Inl err \<Rightarrow> (Inl err, s)
            | Inr trainingDataRef \<Rightarrow>
                if setDoc_ok e
                then (Inr (), s\<lparr>training_data :=
                        AList.update trainingDataRef \<lparr>question = q, answer = a\<rparr>
                          (training_data s)\<rparr>)
                else (Inl StoreWriteFailure, s)))"

subsection \<open>The inference turn\<close>

definition newline :: char where
  "newline = CHR 0x0A"

definition training_line :: "training_pair \<Rightarrow> string" where
  \<open>training_line d =
     ''User asked "'' @ question d @ ''", I responded "'' @ answer d @ ''".''\<close>

definition prompt_head :: string where
  "prompt_head =
     ''You are a blank chatbot being trained. Here's some training data I've provided you:''
     @ [newline]"

definition prompt_mid :: string where
  "prompt_mid =
     [newline, newline]
     @ ''Based on our conversation history and the training data, please respond to the following:''
     @ [newline]"

definition build_contents ::
  "chat_message list \<Rightarrow> training_pair list \<Rightarrow> string \<Rightarrow> turn list" where
  "build_contents msgs trainingData userMessage =
     (let chatHistoryForLLM =
            map (\<lambda>msg. \<lparr>role = (if sender msg = ''user'' then ''user'' else ''model''),
                        parts = [msg_text msg]\<rparr>) msgs;
          trainingContext = join [newline] (map training_line trainingData);
          prompt = prompt_head @ trainingContext @ prompt_mid @ userMessage
      in chatHistoryForLLM @ [\<lparr>role = ''user'', parts = [JStr prompt]\<rparr>])"

definition getDocs :: "env \<Rightarrow> app_state \<Rightarrow> error + training_pair list" where
  "getDocs e s =
     (if db s = None then Inl TypeError
      else if getDocs_ok e
      then Inr (map snd (filter (\<lambda>d. length (fst d) = 1) (training_data s)))
      else Inl StoreReadFailure)"

definition shape_test :: "(jsval \<Rightarrow> error + bool) \<Rightarrow> jsval \<Rightarrow> error + bool" where
  "shape_test coerce result =
     and_then (get_prop result ''candidates'') (\<lambda>c.
       if \<not> truthy c then Inr False else
       and_then (get_prop c ''length'') (\<lambda>l.
       and_then (gt_zero coerce l) (\<lambda>b.
       if \<not> b then Inr False else
       and_then (get_index0 c) (\<lambda>c0.
       and_then (get_prop c0 ''content'') (\<lambda>ct.
       if \<not> truthy ct then Inr False else
       and_then (get_prop ct ''parts'') (\<lambda>ps.
       if \<not> truthy ps then Inr False else
       and_then (get_prop ps ''length'') (\<lambda>pl. gt_zero coerce pl)))))))"

definition botText :: "jsval \<Rightarrow> error + jsval" where
  "botText result =
     and_then (get_prop result ''candidates'') (\<lambda>c.
     and_then (get_index0 c) (\<lambda>c0.
     and_then (get_prop c0 ''content'') (\<lambda>ct.
     and_then (get_prop ct ''parts'') (\<lambda>ps.
     and_then (get_index0 ps) (\<lambda>p0. get_prop p0 ''text'')))))"

definition rephrase_text :: string where
  "rephrase_text = ''I'm not sure how to respond to that. Can you rephrase?''"

definition trouble_text :: string where
  "trouble_text =
     ''I'm sorry, I'm having trouble connecting right now. Please try again later.''"

text \<open>
  The body of the \<^verbatim>\<open>try\<close> of \<^verbatim>\<open>getBotResponse\<close>. The function reads the \<^verbatim>\<open>messages\<close>
  of the render in which it was created, here \<open>msgs\<close>: what the listener puts into the
  state while the function runs belongs to a later render.
\<close>

definition getBotResponse_try ::
  "env \<Rightarrow> chat_message list \<Rightarrow> string \<Rightarrow> app_state \<Rightarrow> (error + unit) \<times> app_state" where
  "getBotResponse_try e msgs userMessage s =
     (case getDocs e s of
        Inl err \<Rightarrow> (Inl err, s)
      | Inr trainingData \<Rightarrow>
          (let s1 = s\<lparr>requests :=
                       requests s @ [build_contents msgs trainingData userMessage]\<rparr>
           in case fetch_result e of
                NetworkError \<Rightarrow> (Inl EndpointTransportFailure, s1)
              | BodyNotJSON \<Rightarrow> (Inl BodyParseFailure, s1)
              | Body result \<Rightarrow>
                  (case shape_test (coerce_gt0 e) result of
                     Inl err \<Rightarrow> (Inl err, s1)
                   | Inr True \<Rightarrow>
                       (case botText result of
                          Inl err \<Rightarrow> (Inl err, s1)
                        | Inr t \<Rightarrow> sendBotResponse e t ''bot'' s1)
                   | Inr False \<Rightarrow> sendBotResponse e (JStr rephrase_text) ''bot'' s1)))"

definition getBotResponse ::
  "env \<Rightarrow> chat_message list \<Rightarrow> string \<Rightarrow> app_state \<Rightarrow> (error + unit) \<times> app_state" where
  "getBotResponse e msgs userMessage s =
     (case getBotResponse_try e msgs userMessage s of
        (Inl err, s1) \<Rightarrow> sendBotResponse e (JStr trouble_text) ''bot'' s1
      | (Inr u, s1) \<Rightarrow> (Inr u, s1))"

subsection \<open>Submission\<close>

definition teach_prefix :: string where
  "teach_prefix = ''/teach ''"

definition clear_prefix :: string where
  "clear_prefix = ''/clear''"

definition teach_sep :: string where
  "teach_sep = [dquote, CHR 0x20, dquote]"

definition ack_text :: string where
  "ack_text = ''Acknowledged. I've noted that for future reference.''"

definition usage_text :: string where
  \<open>usage_text = ''Invalid /teach command. Use: /teach "question" "answer"''\<close>

definition cleared_text :: string where
  "cleared_text = ''Chat history cleared.''"

definition oops_text :: string where
  "oops_text = ''Oops! Something went wrong. Please try again.''"

text \<open>
  The body of the \<^verbatim>\<open>try\<close> of \<^verbatim>\<open>handleSendMessage\<close>. It starts in the state of the
  render that created the handler, so the \<^verbatim>\<open>messages\<close> its functions read are those of the
  state it starts in.
\<close>

definition handleSendMessage_try ::
  "env \<Rightarrow> string \<Rightarrow> app_state \<Rightarrow> (error + unit) \<times> app_state" where
  "handleSendMessage_try e userMessage s =
     (case addDoc e \<lparr>sender = ''user'', msg_text = JStr userMessage\<rparr> s of
        (Inl err, s1) \<Rightarrow> (Inl err, s1)
      | (Inr u, s1) \<Rightarrow>
          if startsWith userMessage teach_prefix then
            (let ps = split (substring userMessage (length teach_prefix)) teach_sep in
             if length ps = 2 then
               (let q = replace_quotes (ps ! 0); a = replace_quotes (ps ! 1) in
                case saveTrainingData e q a s1 of
                  (Inl err, s2) \<Rightarrow> (Inl err, s2)
                | (Inr u2, s2) \<Rightarrow> sendBotResponse e (JStr ack_text) ''bot'' s2)
             else sendBotResponse e (JStr usage_text) ''bot'' s1)
          else if startsWith userMessage clear_prefix then
            sendBotResponse e (JStr cleared_text) ''bot'' (s1\<lparr>messages := []\<rparr>)
          else getBotResponse e (messages s) userMessage s1)"

text \<open>
  The handler itself: the guard, the \<^verbatim>\<open>try\<close>, the \<^verbatim>\<open>catch\<close> that reports through
  the same store, and the \<^verbatim>\<open>finally\<close> that runs whether or not the \<^verbatim>\<open>catch\<close> threw.
  The first component of the result is how the handler's promise settles.
\<close>

definition handleSendMessage :: "env \<Rightarrow> app_state \<Rightarrow> (error + unit) \<times> app_state" where
  "handleSendMessage e s =
     (if trim (newMessage s) = [] \<or> \<not> available s then (Inr (), s)
      else
        (let userMessage = trim (newMessage s);
             s0 = s\<lparr>isLoading := True, newMessage := []\<rparr>
         in case handleSendMessage_try e userMessage s0 of
              (Inr u, s1) \<Rightarrow> (Inr u, s1\<lparr>isLoading := False\<rparr>)
            | (Inl err, s1) \<Rightarrow>
                (case sendBotResponse e (JStr oops_text) ''bot'' s1 of
                   (r, s2) \<Rightarrow> (r, s2\<lparr>isLoading := False\<rparr>))))"

section \<open>Notions used to state the properties\<close>

text \<open>
  The second state extends the chat history of the first by messages of the bot only.
\<close>

definition bots_only :: "app_state \<Rightarrow> app_state \<Rightarrow> bool" where
  "bots_only s s' =
     (\<exists>bots. chat_history s' = chat_history s @ bots \<and> (\<forall>m \<in> set bots. sender m = ''bot''))"

text \<open>The command that teaches the answer \<open>B\<close> to the question \<open>A\<close>, as it is typed.\<close>

definition teach_command :: "string \<Rightarrow> string \<Rightarrow> string" where
  "teach_command A B = ''/teach '' @ [dquote] @ A @ [dquote, CHR 0x20, dquote] @ B @ [dquote]"

text \<open>
  The grammar in the words of the specification, not of the code, for what follows the
  prefix of a teach command: exactly two double-quoted segments separated by a single
  space. A segment starts at a double quote and ends at the next one. It is only compared
  with what the code accepts.
\<close>

definition spec_quoted_segment :: "string \<Rightarrow> (string \<times> string) option" where
  "spec_quoted_segment r =
     (case r of
        [] \<Rightarrow> None
      | c # cs \<Rightarrow>
          if c \<noteq> dquote then None
          else (case dropWhile (\<lambda>x. x \<noteq> dquote) cs of
                  [] \<Rightarrow> None
                | d # rest \<Rightarrow> Some (takeWhile (\<lambda>x. x \<noteq> dquote) cs, rest)))"

definition spec_two_quoted_segments :: "string \<Rightarrow> bool" where
  "spec_two_quoted_segments r =
     (case spec_quoted_segment r of
        None \<Rightarrow> False
      | Some (q, r1) \<Rightarrow>
          (case r1 of
             [] \<Rightarrow> False
           | sp # r2 \<Rightarrow>
               sp = CHR 0x20 \<and>
               (case spec_quoted_segment r2 of None \<Rightarrow> False | Some (a, r3) \<Rightarrow> r3 = [])))"

text \<open>The documents of the training collection itself, which a read of it returns.\<close>

definition collection_docs :: "app_state \<Rightarrow> training_pair list" where
  "collection_docs s = map snd (filter (\<lambda>d. length (fst d) = 1) (training_data s))"

text \<open>
  Two parts of the \<^verbatim>\<open>try\<close> of \<^verbatim>\<open>getBotResponse\<close>, named to state its outcomes: what it
  hands to \<^verbatim>\<open>sendBotResponse\<close>, or the exception it throws before it gets there; and the
  state once the request has been handed to \<^verbatim>\<open>fetch\<close>.
\<close>

definition intended_reply :: "env \<Rightarrow> app_state \<Rightarrow> error + jsval" where
  "intended_reply e s =
     (case getDocs e s of
        Inl err \<Rightarrow> Inl err
      | Inr trainingData \<Rightarrow>
          (case fetch_result e of
             NetworkError \<Rightarrow> Inl EndpointTransportFailure
           | BodyNotJSON \<Rightarrow> Inl BodyParseFailure
           | Body result \<Rightarrow>
               (case shape_test (coerce_gt0 e) result of
                  Inl err \<Rightarrow> Inl err
                | Inr True \<Rightarrow> botText result
                | Inr False \<Rightarrow> Inr (JStr rephrase_text))))"

definition after_fetch :: "env \<Rightarrow> chat_message list \<Rightarrow> string \<Rightarrow> app_state \<Rightarrow> app_state" where
  "after_fetch e msgs um s =
     (case getDocs e s of
        Inl err \<Rightarrow> s
      | Inr trainingData \<Rightarrow>
          s\<lparr>requests := requests s @ [build_contents msgs trainingData um]\<rparr>)"

text \<open>No stored training pair holds a double quote in its question or its answer.\<close>

definition quote_free_store :: "app_state \<Rightarrow> bool" where
  "quote_free_store s =
     (\<forall>p \<in> set (training_data s).
        dquote \<notin> set (question (snd p)) \<and> dquote \<notin> set (answer (snd p)))"

text \<open>
  A signed-in session with an empty history, a store and an endpoint that answer, and the
  response of the endpoint whose first candidate says hello.
\<close>

definition ready_state :: app_state where
  "ready_state =
     \<lparr>db = Some Firestore, userId = Some ''u1'', isAuthReady = True, messages = [],
      newMessage = [],
      isLoading = False, chat_history = [], training_data = [], addDoc_calls = 0,
      requests = []\<rparr>"

definition hello_response :: jsval where
  "hello_response =
     JObj [(''candidates'',
            JArr [JObj [(''content'',
                         JObj [(''parts'', JArr [JObj [(''text'', JStr ''hello'')]])])]])]"

definition reliable_env :: env where
  "reliable_env =
     \<lparr>addDoc_ok = (\<lambda>n. True), setDoc_ok = True, getDocs_ok = True,
      fetch_result = Body hello_response, coerce_gt0 = (\<lambda>v. Inr False),
      toLowerCase = ascii_toLowerCase\<rparr>"

text \<open>The same session after one exchange, shown in the local view.\<close>

definition chatting_state :: app_state where
  "chatting_state =
     ready_state
       \<lparr>messages := [\<lparr>sender = ''user'', msg_text = JStr ''hi''\<rparr>,
                     \<lparr>sender = ''bot'', msg_text = JStr ''hello''\<rparr>],
        chat_history := [\<lparr>sender = ''user'', msg_text = JStr ''hi''\<rparr>,
                         \<lparr>sender = ''bot'', msg_text = JStr ''hello''\<rparr>],
        addDoc_calls := 2\<rparr>"

text \<open>The store refuses every write and every read.\<close>

definition store_down_env :: env where
  "store_down_env =
     \<lparr>addDoc_ok = (\<lambda>n. False), setDoc_ok = False, getDocs_ok = False,
      fetch_result = Body hello_response, coerce_gt0 = (\<lambda>v. Inr False),
      toLowerCase = ascii_toLowerCase\<rparr>"

text \<open>The store of training pairs refuses writes; everything else answers.\<close>

definition training_store_down_env :: env where
  "training_store_down_env = reliable_env\<lparr>setDoc_ok := False\<rparr>"

section \<open>Strings: trimming, splitting and document references\<close>

lemma strip_leading_id:
  assumes "\<forall>w \<in> set ws. w \<noteq> [] \<longrightarrow> hd w \<noteq> c"
  shows "strip_leading ws (c # cs) = c # cs"
proof -
  have "\<not> (w \<noteq> [] \<and> startsWith (c # cs) w)" if "w \<in> set ws" for w
  proof (cases w)
    case Nil
    then show ?thesis by simp
  next
    case (Cons x xs)
    with assms that have "x \<noteq> c" by fastforce
    with Cons show ?thesis by (simp add: startsWith_def)
  qed
  then have "find (\<lambda>w. w \<noteq> [] \<and> startsWith (c # cs) w) ws = None"
    by (simp add: find_None_iff)
  then show ?thesis by simp
qed

lemma trim_id:
  assumes "s \<noteq> []"
    and "\<forall>w \<in> set white_space. hd w \<noteq> hd s"
    and "\<forall>w \<in> set white_space. last w \<noteq> last s"
  shows "trim s = s"
proof -
  obtain c cs where s: "s = c # cs" using assms(1) by (cases s) auto
  have 1: "strip_leading white_space s = s"
    unfolding s using assms(2) by (intro strip_leading_id) (simp add: s)
  obtain d ds where r: "rev s = d # ds" using assms(1) by (cases "rev s") auto
  then have d: "d = last s" using assms(1) by (metis hd_rev list.sel(1))
  have "\<forall>w \<in> set (map rev white_space). w \<noteq> [] \<longrightarrow> hd w \<noteq> d"
    using assms(3) by (auto simp: d hd_rev)
  then have 2: "strip_leading (map rev white_space) (rev s) = rev s"
    unfolding r by (rule strip_leading_id)
  show ?thesis by (simp add: trim_def 1 2)
qed

lemma not_white_space:
  "\<forall>w \<in> set white_space. hd w \<noteq> CHR ''/''"
  "\<forall>w \<in> set white_space. last w \<noteq> dquote"
  by (simp_all add: white_space_def dquote_def)

lemma split_at_nonempty: "split_at sep s \<noteq> []"
  by (induction sep s rule: split_at.induct) (simp_all add: Let_def)

lemma split_at_skip:
  "c \<noteq> dquote \<Longrightarrow>
   split_at teach_sep (c # cs) = (c # hd (split_at teach_sep cs)) # tl (split_at teach_sep cs)"
  by (simp add: startsWith_def teach_sep_def Let_def)

lemma split_at_quote_free_prefix:
  "dquote \<notin> set xs \<Longrightarrow>
   split_at teach_sep (xs @ ys) = (xs @ hd (split_at teach_sep ys)) # tl (split_at teach_sep ys)"
proof (induction xs)
  case Nil
  then show ?case using split_at_nonempty [of teach_sep ys] by simp
next
  case (Cons x xs)
  then have "x \<noteq> dquote" and "dquote \<notin> set xs" by auto
  then show ?case using Cons.IH by (simp add: split_at_skip del: split_at.simps)
qed

lemma split_at_last_quote:
  "dquote \<notin> set xs \<Longrightarrow> split_at teach_sep (xs @ [dquote]) = [xs @ [dquote]]"
  by (simp add: split_at_quote_free_prefix del: split_at.simps)
     (simp add: startsWith_def teach_sep_def)

lemma split_at_sep:
  "split_at teach_sep (teach_sep @ ys) = [] # split_at teach_sep ys"
  by (simp add: startsWith_def teach_sep_def)

lemma first_quote_no_match:
  "dquote \<notin> set A \<Longrightarrow> A \<noteq> '' '' \<Longrightarrow> \<not> startsWith (dquote # A @ teach_sep @ ys) teach_sep"
  by (cases A; cases "tl A") (auto simp: startsWith_def teach_sep_def dquote_def)

lemma split_teach:
  assumes "dquote \<notin> set A" "dquote \<notin> set B" "A \<noteq> '' ''"
  shows "split (dquote # A @ teach_sep @ B @ [dquote]) teach_sep = [dquote # A, B @ [dquote]]"
proof -
  have "split_at teach_sep (teach_sep @ B @ [dquote]) = [[], B @ [dquote]]"
    by (simp only: split_at_sep split_at_last_quote [OF assms(2)])
  then have "split_at teach_sep (A @ teach_sep @ B @ [dquote]) = [A, B @ [dquote]]"
    using split_at_quote_free_prefix [OF assms(1), of "teach_sep @ B @ [dquote]"] by simp
  moreover have "\<not> startsWith (dquote # A @ teach_sep @ B @ [dquote]) teach_sep"
    using assms first_quote_no_match by blast
  ultimately have "split_at teach_sep (dquote # A @ teach_sep @ B @ [dquote]) = [dquote # A, B @ [dquote]]"
    by (simp add: Let_def)
  then show ?thesis by (simp add: split_def teach_sep_def)
qed

text \<open>A string that does not hold the first character of the separator is not cut.\<close>

lemma split_at_free:
  assumes "sep \<noteq> []" "hd sep \<notin> set xs"
  shows "split_at sep xs = [xs]"
  using assms(2)
proof (induction xs)
  case Nil
  then show ?case by simp
next
  case (Cons x xs)
  then have "\<not> startsWith (x # xs) sep"
    using assms(1) by (cases sep) (auto simp: startsWith_def)
  with Cons show ?case by (simp add: Let_def)
qed

lemma has_indexOf_free:
  assumes "p \<noteq> []" "hd p \<notin> set s"
  shows "\<not> has_indexOf s p"
  using assms(2)
proof (induction s)
  case Nil
  then show ?case using assms(1) by simp
next
  case (Cons x xs)
  then have "\<not> startsWith (x # xs) p"
    using assms(1) by (cases p) (auto simp: startsWith_def)
  with Cons show ?case by simp
qed

lemma doc_ref_single:
  assumes "k \<noteq> []" "CHR ''/'' \<notin> set k"
  shows "doc_ref k = Inr [k]"
proof -
  have 1: "\<not> has_indexOf k ''//''"
    using assms(2) by (intro has_indexOf_free) simp_all
  have 2: "split k ''/'' = [k]"
    using assms(2) split_at_free [of "''/''" k] by (simp add: split_def)
  show ?thesis using assms(1) by (simp add: doc_ref_def 1 2 collection_depth_def)
qed

section \<open>What the steps of the pipeline add to the chat history\<close>

lemma onSnapshot_frame:
  "chat_history (onSnapshot s) = chat_history s"
  "training_data (onSnapshot s) = training_data s"
  "requests (onSnapshot s) = requests s"
  "addDoc_calls (onSnapshot s) = addDoc_calls s"
  "isLoading (onSnapshot s) = isLoading s"
  "newMessage (onSnapshot s) = newMessage s"
  "db (onSnapshot s) = db s"
  "userId (onSnapshot s) = userId s"
  "isAuthReady (onSnapshot s) = isAuthReady s"
  "available (onSnapshot s) = available s"
  "listening (onSnapshot s) = listening s"
  by (simp_all add: onSnapshot_def listening_def available_def)

lemma bots_only_refl: "chat_history s' = chat_history s \<Longrightarrow> bots_only s s'"
  by (simp add: bots_only_def)

lemma bots_only_trans: "bots_only s s1 \<Longrightarrow> bots_only s1 s2 \<Longrightarrow> bots_only s s2"
  by (fastforce simp: bots_only_def)

lemma bots_only_onSnapshot: "bots_only (onSnapshot s) s' = bots_only s s'"
  by (simp add: bots_only_def onSnapshot_frame)

lemma bots_only_sendBotResponse: "bots_only s (snd (sendBotResponse e t ''bot'' s))"
  by (simp add: bots_only_def sendBotResponse_def addDoc_def onSnapshot_frame)

lemma bots_only_saveTrainingData: "bots_only s (snd (saveTrainingData e q a s))"
  by (simp add: bots_only_def saveTrainingData_def split: sum.splits)

lemma bots_only_getBotResponse_try: "bots_only s (snd (getBotResponse_try e msgs um s))"
  by (simp add: bots_only_def getBotResponse_try_def sendBotResponse_def addDoc_def Let_def
        onSnapshot_frame split: sum.splits fetch_outcome.splits bool.splits)

lemma bots_only_getBotResponse: "bots_only s (snd (getBotResponse e msgs um s))"
proof -
  obtain r s1 where t: "getBotResponse_try e msgs um s = (r, s1)" by (cases "getBotResponse_try e msgs um s")
  then have 1: "bots_only s s1" using bots_only_getBotResponse_try [of s e msgs um] by simp
  show ?thesis
  proof (cases r)
    case (Inl err)
    then have "snd (getBotResponse e msgs um s) = snd (sendBotResponse e (JStr trouble_text) ''bot'' s1)"
      by (simp add: getBotResponse_def t)
    then show ?thesis using 1 bots_only_sendBotResponse bots_only_trans by metis
  next
    case (Inr u)
    then show ?thesis using 1 by (simp add: getBotResponse_def t)
  qed
qed

lemma try_rejected:
  "\<not> addDoc_ok e (addDoc_calls s) \<Longrightarrow>
   handleSendMessage_try e um s = (Inl StoreWriteFailure, s\<lparr>addDoc_calls := Suc (addDoc_calls s)\<rparr>)"
  by (simp add: handleSendMessage_try_def addDoc_def)

lemma bots_only_teach:
  "bots_only s1
     (snd (case saveTrainingData e q a s1 of
             (Inl err, s2) \<Rightarrow> (Inl err, s2)
           | (Inr u2, s2) \<Rightarrow> sendBotResponse e t ''bot'' s2))"
proof -
  obtain r s2 where sv: "saveTrainingData e q a s1 = (r, s2)" by (cases "saveTrainingData e q a s1")
  then have 1: "bots_only s1 s2" using bots_only_saveTrainingData [of s1 e q a] by simp
  show ?thesis
  proof (cases r)
    case (Inl err)
    then show ?thesis using 1 by (simp add: sv)
  next
    case (Inr u)
    then show ?thesis using 1 bots_only_sendBotResponse [of s2 e t]
      by (simp add: sv) (rule bots_only_trans)
  qed
qed

lemma bots_only_messages_update: "bots_only (s\<lparr>messages := ms\<rparr>) s' = bots_only s s'"
  by (simp add: bots_only_def)

lemma bots_only_after_user:
  assumes "addDoc_ok e (addDoc_calls s)"
  shows "bots_only (s\<lparr>chat_history := chat_history s @ [\<lparr>sender = ''user'', msg_text = JStr um\<rparr>],
                      addDoc_calls := Suc (addDoc_calls s)\<rparr>)
           (snd (handleSendMessage_try e um s))"
proof -
  let ?s1 = "onSnapshot (s\<lparr>chat_history := chat_history s @ [\<lparr>sender = ''user'', msg_text = JStr um\<rparr>],
                addDoc_calls := Suc (addDoc_calls s)\<rparr>)"
  have "bots_only (?s1\<lparr>messages := []\<rparr>)
          (snd (sendBotResponse e (JStr cleared_text) ''bot'' (?s1\<lparr>messages := []\<rparr>)))"
    by (rule bots_only_sendBotResponse)
  then have clear: "bots_only ?s1
          (snd (sendBotResponse e (JStr cleared_text) ''bot'' (?s1\<lparr>messages := []\<rparr>)))"
    by (simp add: bots_only_def)
  have "bots_only ?s1 (snd (handleSendMessage_try e um s))"
    using assms clear
    by (simp add: handleSendMessage_try_def addDoc_def Let_def bots_only_teach
          bots_only_sendBotResponse bots_only_getBotResponse)
  then show ?thesis by (simp add: bots_only_onSnapshot)
qed

lemma bots_only_isLoading: "bots_only s (s'\<lparr>isLoading := b\<rparr>) = bots_only s s'"
  by (simp add: bots_only_def)

lemma bots_only_handler:
  assumes "trim (newMessage s) \<noteq> []" "available s" "addDoc_ok e (addDoc_calls s)"
  shows "bots_only (s\<lparr>chat_history := chat_history s @ [\<lparr>sender = ''user'', msg_text = JStr (trim (newMessage s))\<rparr>]\<rparr>)
           (snd (handleSendMessage e s))"
proof -
  let ?um = "trim (newMessage s)"
  let ?s0 = "s\<lparr>isLoading := True, newMessage := []\<rparr>"
  let ?s1 = "s\<lparr>chat_history := chat_history s @ [\<lparr>sender = ''user'', msg_text = JStr ?um\<rparr>]\<rparr>"
  obtain r s2 where t: "handleSendMessage_try e ?um ?s0 = (r, s2)"
    by (cases "handleSendMessage_try e ?um ?s0")
  have "bots_only (?s0\<lparr>chat_history := chat_history ?s0 @ [\<lparr>sender = ''user'', msg_text = JStr ?um\<rparr>],
                      addDoc_calls := Suc (addDoc_calls ?s0)\<rparr>) s2"
    using bots_only_after_user [of e ?s0 ?um] assms(3) t by simp
  then have 1: "bots_only ?s1 s2" by (simp add: bots_only_def)
  show ?thesis
  proof (cases r)
    case (Inr u)
    then show ?thesis using assms 1 by (simp add: handleSendMessage_def t bots_only_isLoading)
  next
    case (Inl err)
    obtain r3 s3 where sb: "sendBotResponse e (JStr oops_text) ''bot'' s2 = (r3, s3)"
      by (cases "sendBotResponse e (JStr oops_text) ''bot'' s2")
    then have "bots_only s2 s3" using bots_only_sendBotResponse [of s2 e "JStr oops_text"] by simp
    then have "bots_only ?s1 s3" using 1 bots_only_trans by blast
    then show ?thesis using assms Inl by (simp add: handleSendMessage_def t sb bots_only_isLoading)
  qed
qed

section \<open>A well-formed teach command\<close>

lemma trim_teach_command: "trim (teach_command A B) = teach_command A B"
  by (rule trim_id) (simp_all add: teach_command_def not_white_space)

lemma startsWith_teach_command: "startsWith (teach_command A B) teach_prefix"
  by (simp add: startsWith_def teach_command_def teach_prefix_def)

lemma substring_teach_command:
  "substring (teach_command A B) (length teach_prefix) = dquote # A @ teach_sep @ B @ [dquote]"
  by (simp add: substring_def teach_command_def teach_prefix_def teach_sep_def)

lemma replace_quotes_segments:
  "dquote \<notin> set A \<Longrightarrow> replace_quotes (dquote # A) = A"
  "dquote \<notin> set B \<Longrightarrow> replace_quotes (B @ [dquote]) = B"
  by (auto simp: replace_quotes_def filter_id_conv)

lemma available_frame:
  "available (s\<lparr>messages := ms\<rparr>) = available s"
  "available (s\<lparr>newMessage := nm\<rparr>) = available s"
  "available (s\<lparr>isLoading := b\<rparr>) = available s"
  "available (s\<lparr>chat_history := h\<rparr>) = available s"
  "available (s\<lparr>training_data := td\<rparr>) = available s"
  "available (s\<lparr>addDoc_calls := n\<rparr>) = available s"
  "available (s\<lparr>requests := rq\<rparr>) = available s"
  "available (s\<lparr>isAuthReady := r\<rparr>) = available s"
  by (simp_all add: available_def)

lemma listening_frame:
  "listening (s\<lparr>messages := ms\<rparr>) = listening s"
  "listening (s\<lparr>newMessage := nm\<rparr>) = listening s"
  "listening (s\<lparr>isLoading := b\<rparr>) = listening s"
  "listening (s\<lparr>chat_history := h\<rparr>) = listening s"
  "listening (s\<lparr>training_data := td\<rparr>) = listening s"
  "listening (s\<lparr>addDoc_calls := n\<rparr>) = listening s"
  "listening (s\<lparr>requests := rq\<rparr>) = listening s"
  by (simp_all add: listening_def available_def)

lemma handle_teach:
  assumes "dquote \<notin> set A" "dquote \<notin> set B" "A \<noteq> '' ''"
    and "toLowerCase e A \<noteq> []" "CHR ''/'' \<notin> set (toLowerCase e A)"
    and "available s" "newMessage s = teach_command A B"
    and "addDoc_ok e (addDoc_calls s)" "setDoc_ok e" "addDoc_ok e (Suc (addDoc_calls s))"
  shows "handleSendMessage e s =
     (Inr (), onSnapshot
        (s\<lparr>newMessage := [],
           chat_history := chat_history s @
             [\<lparr>sender = ''user'', msg_text = JStr (teach_command A B)\<rparr>,
              \<lparr>sender = ''bot'', msg_text = JStr ack_text\<rparr>],
           training_data :=
             AList.update [toLowerCase e A] \<lparr>question = A, answer = B\<rparr> (training_data s),
           addDoc_calls := Suc (Suc (addDoc_calls s)),
           isLoading := False\<rparr>))"
proof -
  have ne: "teach_command A B \<noteq> []" by (simp add: teach_command_def)
  have sp: "split (substring (teach_command A B) (length teach_prefix)) teach_sep
              = [dquote # A, B @ [dquote]]"
    using split_teach [OF assms(1-3)] by (simp only: substring_teach_command)
  have dr: "doc_ref (toLowerCase e A) = Inr [toLowerCase e A]"
    using assms(4,5) by (rule doc_ref_single)
  have "handleSendMessage_try e (teach_command A B) (s\<lparr>isLoading := True, newMessage := []\<rparr>) =
     (Inr (), onSnapshot
        (s\<lparr>isLoading := True, newMessage := [],
           chat_history := chat_history s @
             [\<lparr>sender = ''user'', msg_text = JStr (teach_command A B)\<rparr>,
              \<lparr>sender = ''bot'', msg_text = JStr ack_text\<rparr>],
           training_data :=
             AList.update [toLowerCase e A] \<lparr>question = A, answer = B\<rparr> (training_data s),
           addDoc_calls := Suc (Suc (addDoc_calls s))\<rparr>))"
    using assms(1,2,6-10)
    by (simp add: handleSendMessage_try_def addDoc_def startsWith_teach_command sp dr
          replace_quotes_segments saveTrainingData_def sendBotResponse_def available_frame
          onSnapshot_def listening_frame Let_def)
  then show ?thesis
    using assms(6,7) ne
    by (simp add: handleSendMessage_def trim_teach_command onSnapshot_def listening_frame)
qed

section \<open>Frame properties and the shape of the handler\<close>

lemma sendBotResponse_available:
  "available s \<Longrightarrow>
   sendBotResponse e t sn s =
     (if addDoc_ok e (addDoc_calls s)
      then (Inr (), onSnapshot
              (s\<lparr>chat_history := chat_history s @ [\<lparr>sender = sn, msg_text = t\<rparr>],
                 addDoc_calls := Suc (addDoc_calls s)\<rparr>))
      else (Inl StoreWriteFailure, s\<lparr>addDoc_calls := Suc (addDoc_calls s)\<rparr>))"
  by (simp add: sendBotResponse_def addDoc_def)

lemma training_data_sendBotResponse:
  "training_data (snd (sendBotResponse e t sn s)) = training_data s"
  by (simp add: sendBotResponse_def addDoc_def onSnapshot_frame)

lemma training_data_getBotResponse_try:
  "training_data (snd (getBotResponse_try e msgs um s)) = training_data s"
  by (simp add: getBotResponse_try_def training_data_sendBotResponse Let_def
        split: sum.splits fetch_outcome.splits bool.splits)

lemma training_data_getBotResponse:
  "training_data (snd (getBotResponse e msgs um s)) = training_data s"
proof -
  obtain r s1 where t: "getBotResponse_try e msgs um s = (r, s1)"
    by (cases "getBotResponse_try e msgs um s")
  then have "training_data s1 = training_data s"
    using training_data_getBotResponse_try [of e msgs um s] by simp
  then show ?thesis
    by (cases r) (simp_all add: getBotResponse_def t training_data_sendBotResponse)
qed

text \<open>The handler, once its guard has passed, in terms of the body of its try.\<close>

lemma handler_after_guard:
  assumes "trim (newMessage s) \<noteq> []" "available s"
    and "handleSendMessage_try e (trim (newMessage s)) (s\<lparr>isLoading := True, newMessage := []\<rparr>) = (r, s1)"
  shows "handleSendMessage e s =
     (case r of
        Inr u \<Rightarrow> (Inr u, s1\<lparr>isLoading := False\<rparr>)
      | Inl err \<Rightarrow>
          (fst (sendBotResponse e (JStr oops_text) ''bot'' s1),
           (snd (sendBotResponse e (JStr oops_text) ''bot'' s1))\<lparr>isLoading := False\<rparr>))"
  using assms by (simp add: handleSendMessage_def split: sum.splits prod.splits)

lemma startsWith_nonempty: "startsWith um p \<Longrightarrow> p \<noteq> [] \<Longrightarrow> um \<noteq> []"
  by (auto simp: startsWith_def)

lemma training_data_handler_frame:
  assumes "training_data (snd (handleSendMessage_try e (trim (newMessage s))
             (s\<lparr>isLoading := True, newMessage := []\<rparr>))) = training_data s"
  shows "training_data (snd (handleSendMessage e s)) = training_data s"
proof (cases "trim (newMessage s) = [] \<or> \<not> available s")
  case True
  then show ?thesis by (auto simp: handleSendMessage_def)
next
  case False
  obtain r s1 where t: "handleSendMessage_try e (trim (newMessage s))
      (s\<lparr>isLoading := True, newMessage := []\<rparr>) = (r, s1)"
    by (cases "handleSendMessage_try e (trim (newMessage s)) (s\<lparr>isLoading := True, newMessage := []\<rparr>)")
  with assms have "training_data s1 = training_data s" by simp
  then show ?thesis
    using False handler_after_guard [OF _ _ t]
    by (cases r) (simp_all add: training_data_sendBotResponse)
qed

lemma startsWith_append:
  assumes "startsWith um (p @ q)"
  shows "startsWith um p"
proof -
  have "take (length p) (take (length (p @ q)) um) = take (length p) (p @ q)"
    using assms by (simp only: startsWith_def)
  then show ?thesis by (simp add: startsWith_def)
qed

lemma startsWith_clear_not_teach:
  assumes "startsWith um clear_prefix"
  shows "\<not> startsWith um teach_prefix"
proof
  assume "startsWith um teach_prefix"
  then have "startsWith um (''/t'' @ ''each '')" by (simp add: teach_prefix_def)
  then have 1: "startsWith um ''/t''" by (rule startsWith_append)
  have "startsWith um (''/c'' @ ''lear'')" using assms by (simp add: clear_prefix_def)
  then have 2: "startsWith um ''/c''" by (rule startsWith_append)
  from 1 2 show False by (simp add: startsWith_def)
qed

lemma set_update_subset: "set (AList.update k v al) \<subseteq> insert (k, v) (set al)"
  by (induction al) auto

lemma quote_free_update:
  assumes "quote_free_store s" "dquote \<notin> set q" "dquote \<notin> set a"
  shows "quote_free_store (s\<lparr>training_data :=
           AList.update k \<lparr>question = q, answer = a\<rparr> (training_data s)\<rparr>)"
  using assms set_update_subset [of k "\<lparr>question = q, answer = a\<rparr>" "training_data s"]
  by (fastforce simp: quote_free_store_def)

lemma quote_free_cong:
  "training_data s' = training_data s \<Longrightarrow> quote_free_store s' = quote_free_store s"
  by (simp add: quote_free_store_def)

lemma dquote_replace_quotes: "dquote \<notin> set (replace_quotes x)"
  by (simp add: replace_quotes_def)

lemma quote_free_saveTrainingData:
  "quote_free_store s \<Longrightarrow>
   quote_free_store (snd (saveTrainingData e (replace_quotes x) (replace_quotes y) s))"
  by (simp add: saveTrainingData_def quote_free_update dquote_replace_quotes
        split: sum.splits)

lemma quote_free_try:
  assumes "quote_free_store s"
  shows "quote_free_store (snd (handleSendMessage_try e um s))"
proof -
  let ?s1 = "snd (addDoc e \<lparr>sender = ''user'', msg_text = JStr um\<rparr> s)"
  have 1: "quote_free_store ?s1"
    using assms by (simp add: addDoc_def quote_free_store_def onSnapshot_frame)
  have teach: "quote_free_store
     (snd (case saveTrainingData e (replace_quotes x) (replace_quotes y) ?s1 of
             (Inl err, s2) \<Rightarrow> (Inl err, s2)
           | (Inr u2, s2) \<Rightarrow> sendBotResponse e (JStr ack_text) ''bot'' s2))" for x y
  proof -
    obtain r s2 where sv: "saveTrainingData e (replace_quotes x) (replace_quotes y) ?s1 = (r, s2)"
      by (cases "saveTrainingData e (replace_quotes x) (replace_quotes y) ?s1")
    then have "quote_free_store s2"
      using quote_free_saveTrainingData [OF 1, of e x y] by simp
    then show ?thesis
      by (cases r) (simp_all add: sv quote_free_cong [OF training_data_sendBotResponse])
  qed
  have clear: "quote_free_store (snd (sendBotResponse e t ''bot'' (?s1\<lparr>messages := []\<rparr>)))" for t
    using 1 by (simp add: quote_free_store_def training_data_sendBotResponse)
  show ?thesis
    using 1 teach clear
    by (cases "addDoc_ok e (addDoc_calls s)")
       (simp_all add: handleSendMessage_try_def addDoc_def Let_def
          quote_free_cong [OF training_data_sendBotResponse]
          quote_free_cong [OF training_data_getBotResponse])
qed

lemma training_data_handler:
  "training_data (snd (handleSendMessage e s)) =
     (if trim (newMessage s) = [] \<or> \<not> available s then training_data s
      else training_data (snd (handleSendMessage_try e (trim (newMessage s))
             (s\<lparr>isLoading := True, newMessage := []\<rparr>))))"
proof (cases "trim (newMessage s) = [] \<or> \<not> available s")
  case True
  then show ?thesis by (auto simp: handleSendMessage_def)
next
  case False
  obtain r s1 where t: "handleSendMessage_try e (trim (newMessage s))
      (s\<lparr>isLoading := True, newMessage := []\<rparr>) = (r, s1)"
    by (cases "handleSendMessage_try e (trim (newMessage s)) (s\<lparr>isLoading := True, newMessage := []\<rparr>)")
  show ?thesis
    using False handler_after_guard [OF _ _ t]
    by (cases r) (simp_all add: t training_data_sendBotResponse)
qed

section \<open>The outcomes of the inference turn\<close>

lemma after_fetch_frame:
  "chat_history (after_fetch e msgs um s) = chat_history s"
  "addDoc_calls (after_fetch e msgs um s) = addDoc_calls s"
  "training_data (after_fetch e msgs um s) = training_data s"
  "messages (after_fetch e msgs um s) = messages s"
  "available (after_fetch e msgs um s) = available s"
  "listening (after_fetch e msgs um s) = listening s"
  by (simp_all add: after_fetch_def available_def listening_def split: sum.splits)

lemma getBotResponse_try_normal_form:
  "getBotResponse_try e msgs um s =
     (case intended_reply e s of
        Inl err \<Rightarrow> (Inl err, after_fetch e msgs um s)
      | Inr t \<Rightarrow> sendBotResponse e t ''bot'' (after_fetch e msgs um s))"
  by (simp add: getBotResponse_try_def intended_reply_def after_fetch_def Let_def
        split: sum.splits fetch_outcome.splits bool.splits)

lemma getBotResponse_normal_form:
  assumes "available s"
  shows "getBotResponse e msgs um s =
     (let s1 = after_fetch e msgs um s; n = addDoc_calls s;
          say = (\<lambda>t k. onSnapshot
                   (s1\<lparr>chat_history := chat_history s @ [\<lparr>sender = ''bot'', msg_text = t\<rparr>],
                      addDoc_calls := k\<rparr>))
      in case intended_reply e s of
           Inr t \<Rightarrow>
             if addDoc_ok e n then (Inr (), say t (Suc n))
             else if addDoc_ok e (Suc n) then (Inr (), say (JStr trouble_text) (Suc (Suc n)))
             else (Inl StoreWriteFailure, s1\<lparr>addDoc_calls := Suc (Suc n)\<rparr>)
         | Inl err \<Rightarrow>
             if addDoc_ok e n then (Inr (), say (JStr trouble_text) (Suc n))
             else (Inl StoreWriteFailure, s1\<lparr>addDoc_calls := Suc n\<rparr>))"
  using assms
  by (simp add: getBotResponse_def getBotResponse_try_normal_form Let_def
        sendBotResponse_available after_fetch_frame available_frame
        split: sum.splits)

lemma getDocs_available:
  "available s \<Longrightarrow>
   getDocs e s = (if getDocs_ok e then Inr (collection_docs s) else Inl StoreReadFailure)"
  by (auto simp: getDocs_def available_def collection_docs_def)

lemma first_candidate_text:
  assumes "map_of fs ''candidates'' = Some (JArr (JObj cf # cs))"
    and "map_of cf ''content'' = Some (JObj ctf)"
    and "map_of ctf ''parts'' = Some (JArr (JObj pf # ps))"
    and "map_of pf ''text'' = Some t"
  shows "shape_test coerce (JObj fs) = Inr True" and "botText (JObj fs) = Inr t"
  using assms by (simp_all add: shape_test_def botText_def and_then_def)

lemma requests_getBotResponse:
  assumes "available s" "getDocs_ok e"
  shows "requests (snd (getBotResponse e msgs um s)) =
           requests s @ [build_contents msgs (collection_docs s) um]"
  using assms
  by (simp add: getBotResponse_normal_form Let_def after_fetch_def getDocs_available
        onSnapshot_frame split: sum.splits)

section \<open>The handler keeps the session and sorts its input\<close>

lemma available_sendBotResponse: "available (snd (sendBotResponse e t sn s)) = available s"
  by (simp add: sendBotResponse_def addDoc_def available_frame onSnapshot_frame)

lemma available_saveTrainingData: "available (snd (saveTrainingData e q a s)) = available s"
  by (simp add: saveTrainingData_def available_frame split: sum.splits)

lemma available_getBotResponse: "available (snd (getBotResponse e msgs um s)) = available s"
proof (cases "available s")
  case True
  then show ?thesis
    by (simp add: getBotResponse_normal_form Let_def after_fetch_frame available_frame
          onSnapshot_frame split: sum.splits)
next
  case False
  then show ?thesis
    by (simp add: getBotResponse_def getBotResponse_try_normal_form sendBotResponse_def
          after_fetch_frame split: sum.splits)
qed

lemma available_try: "available (snd (handleSendMessage_try e um s)) = available s"
proof -
  have teach: "available
     (snd (case saveTrainingData e q a s1 of
             (Inl err, s2) \<Rightarrow> (Inl err, s2)
           | (Inr u2, s2) \<Rightarrow> sendBotResponse e t ''bot'' s2)) = available s1" for q a t s1
  proof -
    obtain r s2 where sv: "saveTrainingData e q a s1 = (r, s2)"
      by (cases "saveTrainingData e q a s1")
    then have "available s2 = available s1"
      using available_saveTrainingData [of e q a s1] by simp
    then show ?thesis by (cases r) (simp_all add: sv available_sendBotResponse)
  qed
  show ?thesis
    by (simp add: handleSendMessage_try_def addDoc_def Let_def teach available_sendBotResponse
          available_getBotResponse available_frame onSnapshot_frame)
qed

lemma startsWith_teach_not_clear:
  assumes "startsWith um ''/teach''"
  shows "\<not> startsWith um clear_prefix"
proof
  assume "startsWith um clear_prefix"
  then have "startsWith um (''/c'' @ ''lear'')" by (simp add: clear_prefix_def)
  then have 1: "startsWith um ''/c''" by (rule startsWith_append)
  have "startsWith um (''/t'' @ ''each'')" using assms by simp
  then have 2: "startsWith um ''/t''" by (rule startsWith_append)
  from 1 2 show False by (simp add: startsWith_def)
qed

lemma intended_reply_cases:
  assumes "intended_reply e s = Inr t"
  shows "t = JStr rephrase_text \<or> (\<exists>r. fetch_result e = Body r \<and> botText r = Inr t)"
  using assms
  by (auto simp: intended_reply_def split: sum.splits fetch_outcome.splits bool.splits)

text \<open>The texts the bot can utter in the inference branch.\<close>

lemma getBotResponse_texts:
  assumes "available s"
  shows "\<exists>new. chat_history (snd (getBotResponse e msgs um s)) = chat_history s @ new \<and>
           (\<forall>m \<in> set new.
              msg_text m = JStr rephrase_text \<or> msg_text m = JStr trouble_text \<or>
              (\<exists>r. fetch_result e = Body r \<and> botText r = Inr (msg_text m)))"
proof (cases "intended_reply e s")
  case (Inl err)
  then show ?thesis
    using assms
    by (simp add: getBotResponse_normal_form Let_def after_fetch_frame onSnapshot_frame)
next
  case (Inr t)
  from intended_reply_cases [OF this] show ?thesis
    using assms Inr
    by (auto simp: getBotResponse_normal_form Let_def after_fetch_frame onSnapshot_frame)
qed

lemma requests_sendBotResponse: "requests (snd (sendBotResponse e t sn s)) = requests s"
  by (simp add: sendBotResponse_def addDoc_def onSnapshot_frame)

lemma chat_history_sendBotResponse:
  "chat_history (snd (sendBotResponse e t sn s)) = chat_history s \<or>
   chat_history (snd (sendBotResponse e t sn s)) = chat_history s @ [\<lparr>sender = sn, msg_text = t\<rparr>]"
  by (simp add: sendBotResponse_def addDoc_def onSnapshot_frame)

lemma usage_text_distinct:
  "rephrase_text \<noteq> usage_text" "trouble_text \<noteq> usage_text" "oops_text \<noteq> usage_text"
  "startsWith um ''/teach'' \<Longrightarrow> um \<noteq> usage_text"
  by (auto simp: rephrase_text_def trouble_text_def oops_text_def usage_text_def startsWith_def)

text \<open>The definitions that evaluate the pipeline on a concrete input.\<close>

lemmas eval_defs = handleSendMessage_def handleSendMessage_try_def addDoc_def sendBotResponse_def
        saveTrainingData_def doc_ref_def collection_depth_def onSnapshot_def listening_def
        available_def ready_state_def reliable_env_def
        trim_def white_space_def dquote_def startsWith_def teach_prefix_def teach_sep_def
        clear_prefix_def substring_def split_def replace_quotes_def Let_def

lemmas infer_eval_defs = getBotResponse_def getBotResponse_try_def getDocs_def
  sendBotResponse_def addDoc_def onSnapshot_def listening_def available_def ready_state_def
  reliable_env_def
  store_down_env_def shape_test_def botText_def and_then_def Let_def

section \<open>Submission records the user's message first\<close>

text \<open>
  Claim C1. When the trimmed input is empty, or the store handle or the identity is
  missing, the handler changes nothing. Otherwise its first step is to add the user's
  message, with the trimmed input as its text, to the chat history. If the store accepts
  that write, the history grows by exactly this one message of the user, followed only by
  messages of the bot, which the branches of the classification add after it. If the store
  refuses it, no branch runs: the training data and the requests to the endpoint are as
  before, the history gains at most the generic error message, and the local view is as
  before unless the listener reloads it after that message.
\<close>

theorem submit_records_user_message_first:
  "(trim (newMessage s) = [] \<or> \<not> available s \<longrightarrow> handleSendMessage e s = (Inr (), s)) \<and>
   (trim (newMessage s) \<noteq> [] \<and> available s \<and> addDoc_ok e (addDoc_calls s) \<longrightarrow>
      (\<exists>bots. chat_history (snd (handleSendMessage e s)) =
                 chat_history s @ \<lparr>sender = ''user'', msg_text = JStr (trim (newMessage s))\<rparr> # bots
             \<and> (\<forall>m \<in> set bots. sender m = ''bot''))) \<and>
   (trim (newMessage s) \<noteq> [] \<and> available s \<and> \<not> addDoc_ok e (addDoc_calls s) \<longrightarrow>
      training_data (snd (handleSendMessage e s)) = training_data s \<and>
      messages (snd (handleSendMessage e s)) =
        (if addDoc_ok e (Suc (addDoc_calls s)) \<and> isAuthReady s
         then chat_history s @ [\<lparr>sender = ''bot'', msg_text = JStr oops_text\<rparr>]
         else messages s) \<and>
      requests (snd (handleSendMessage e s)) = requests s \<and>
      chat_history (snd (handleSendMessage e s)) =
        (if addDoc_ok e (Suc (addDoc_calls s))
         then chat_history s @ [\<lparr>sender = ''bot'', msg_text = JStr oops_text\<rparr>]
         else chat_history s))"
proof (intro conjI impI)
  assume "trim (newMessage s) = [] \<or> \<not> available s"
  then show "handleSendMessage e s = (Inr (), s)" by (auto simp: handleSendMessage_def)
next
  assume a: "trim (newMessage s) \<noteq> [] \<and> available s \<and> addDoc_ok e (addDoc_calls s)"
  then show "\<exists>bots. chat_history (snd (handleSendMessage e s)) =
                 chat_history s @ \<lparr>sender = ''user'', msg_text = JStr (trim (newMessage s))\<rparr> # bots
             \<and> (\<forall>m \<in> set bots. sender m = ''bot'')"
    using bots_only_handler [of s e] by (simp add: bots_only_def)
next
  assume a: "trim (newMessage s) \<noteq> [] \<and> available s \<and> \<not> addDoc_ok e (addDoc_calls s)"
  then have t: "handleSendMessage_try e (trim (newMessage s)) (s\<lparr>isLoading := True, newMessage := []\<rparr>)
      = (Inl StoreWriteFailure,
         s\<lparr>isLoading := True, newMessage := [], addDoc_calls := Suc (addDoc_calls s)\<rparr>)"
    by (simp add: try_rejected)
  show "training_data (snd (handleSendMessage e s)) = training_data s"
    using a by (simp add: handleSendMessage_def t sendBotResponse_def addDoc_def available_def
          onSnapshot_frame)
  show "messages (snd (handleSendMessage e s)) =
        (if addDoc_ok e (Suc (addDoc_calls s)) \<and> isAuthReady s
         then chat_history s @ [\<lparr>sender = ''bot'', msg_text = JStr oops_text\<rparr>]
         else messages s)"
    using a
    by (auto simp: handleSendMessage_def t sendBotResponse_def addDoc_def available_def
          onSnapshot_def listening_def)
  show "requests (snd (handleSendMessage e s)) = requests s"
    using a by (simp add: handleSendMessage_def t sendBotResponse_def addDoc_def available_def
          onSnapshot_frame)
  show "chat_history (snd (handleSendMessage e s)) =
        (if addDoc_ok e (Suc (addDoc_calls s))
         then chat_history s @ [\<lparr>sender = ''bot'', msg_text = JStr oops_text\<rparr>]
         else chat_history s)"
    using a by (auto simp: handleSendMessage_def t sendBotResponse_def addDoc_def available_def
          onSnapshot_frame)
qed

theorem submit_records_user_message_first_witness:
  "handleSendMessage reliable_env (ready_state\<lparr>newMessage := ''  ''\<rparr>)
     = (Inr (), ready_state\<lparr>newMessage := ''  ''\<rparr>) \<and>
   (\<exists>bots. chat_history (snd (handleSendMessage reliable_env (ready_state\<lparr>newMessage := '' hi ''\<rparr>)))
            = \<lparr>sender = ''user'', msg_text = JStr ''hi''\<rparr> # bots
          \<and> (\<forall>m \<in> set bots. sender m = ''bot'')) \<and>
   training_data (snd (handleSendMessage store_down_env (ready_state\<lparr>newMessage := '' hi ''\<rparr>))) = [] \<and>
   chat_history (snd (handleSendMessage store_down_env (ready_state\<lparr>newMessage := '' hi ''\<rparr>))) = []"
proof -
  have t0: "trim ''  '' = []" and t1: "trim '' hi '' = ''hi''"
    by (simp_all add: trim_def white_space_def startsWith_def)
  show ?thesis
    using submit_records_user_message_first [of "ready_state\<lparr>newMessage := ''  ''\<rparr>" reliable_env]
      submit_records_user_message_first [of "ready_state\<lparr>newMessage := '' hi ''\<rparr>" reliable_env]
      submit_records_user_message_first [of "ready_state\<lparr>newMessage := '' hi ''\<rparr>" store_down_env]
    by (simp add: t0 t1 ready_state_def reliable_env_def store_down_env_def available_def)
qed

section \<open>Teaching a pair\<close>

text \<open>
  Claim C2, as amended. Let the question \<open>A\<close> and the answer \<open>B\<close> hold no double quote,
  let \<open>A\<close> not be a single space, and let the lower-cased question be non-empty and hold
  no slash. When the store accepts the writes, submitting the command that teaches \<open>B\<close>
  for \<open>A\<close> stores, as the document of the training collection whose identifier is the
  lower-cased question, the pair with question \<open>A\<close> and answer \<open>B\<close>, and adds the
  acknowledgement of the bot after the user's message. A later command for a question
  with the same lower-cased form and the answer \<open>C\<close> replaces the pair of that document
  and leaves the documents of the store the same in number and place.
\<close>

theorem teach_upserts_and_overwrites:
  fixes s :: app_state and e1 e2 :: env and A B A' C :: string
  defines "s1 \<equiv> snd (handleSendMessage e1 (s\<lparr>newMessage := teach_command A B\<rparr>))"
  defines "s2 \<equiv> snd (handleSendMessage e2 (s1\<lparr>newMessage := teach_command A' C\<rparr>))"
  assumes "dquote \<notin> set A" "dquote \<notin> set B" "A \<noteq> '' ''"
    and "dquote \<notin> set A'" "dquote \<notin> set C" "A' \<noteq> '' ''"
    and "toLowerCase e1 A \<noteq> []" "CHR ''/'' \<notin> set (toLowerCase e1 A)"
    and "toLowerCase e2 A' = toLowerCase e1 A"
    and "available s"
    and "addDoc_ok e1 (addDoc_calls s)" "setDoc_ok e1" "addDoc_ok e1 (Suc (addDoc_calls s))"
    and "addDoc_ok e2 (Suc (Suc (addDoc_calls s)))" "setDoc_ok e2"
      "addDoc_ok e2 (Suc (Suc (Suc (addDoc_calls s))))"
  shows "map_of (training_data s1) [toLowerCase e1 A] = Some \<lparr>question = A, answer = B\<rparr> \<and>
         \<lparr>question = A, answer = B\<rparr> \<in> set (collection_docs s1) \<and>
         chat_history s1 = chat_history s @
           [\<lparr>sender = ''user'', msg_text = JStr (teach_command A B)\<rparr>,
            \<lparr>sender = ''bot'', msg_text = JStr ack_text\<rparr>] \<and>
         map_of (training_data s2) [toLowerCase e1 A] = Some \<lparr>question = A', answer = C\<rparr> \<and>
         \<lparr>question = A', answer = C\<rparr> \<in> set (collection_docs s2) \<and>
         map fst (training_data s2) = map fst (training_data s1) \<and>
         chat_history s2 = chat_history s1 @
           [\<lparr>sender = ''user'', msg_text = JStr (teach_command A' C)\<rparr>,
            \<lparr>sender = ''bot'', msg_text = JStr ack_text\<rparr>]"
proof -
  let ?k = "[toLowerCase e1 A]"
  let ?t = "s\<lparr>newMessage := teach_command A B\<rparr>"
  have h1: "handleSendMessage e1 ?t =
     (Inr (), onSnapshot
        (?t\<lparr>newMessage := [],
            chat_history := chat_history ?t @
              [\<lparr>sender = ''user'', msg_text = JStr (teach_command A B)\<rparr>,
               \<lparr>sender = ''bot'', msg_text = JStr ack_text\<rparr>],
            training_data :=
              AList.update ?k \<lparr>question = A, answer = B\<rparr> (training_data ?t),
            addDoc_calls := Suc (Suc (addDoc_calls ?t)),
            isLoading := False\<rparr>))"
    using assms(3-5,9,10,12-15) by (intro handle_teach) (simp_all add: available_frame)
  have td1: "training_data s1 = AList.update ?k \<lparr>question = A, answer = B\<rparr> (training_data s)"
    and ch1: "chat_history s1 = chat_history s @
           [\<lparr>sender = ''user'', msg_text = JStr (teach_command A B)\<rparr>,
            \<lparr>sender = ''bot'', msg_text = JStr ack_text\<rparr>]"
    and n1: "addDoc_calls s1 = Suc (Suc (addDoc_calls s))"
    and av1: "available s1"
    using assms(12) by (simp_all add: s1_def h1 onSnapshot_frame available_frame)
  let ?u = "s1\<lparr>newMessage := teach_command A' C\<rparr>"
  have h2: "handleSendMessage e2 ?u =
     (Inr (), onSnapshot
        (?u\<lparr>newMessage := [],
            chat_history := chat_history ?u @
              [\<lparr>sender = ''user'', msg_text = JStr (teach_command A' C)\<rparr>,
               \<lparr>sender = ''bot'', msg_text = JStr ack_text\<rparr>],
            training_data :=
              AList.update [toLowerCase e2 A'] \<lparr>question = A', answer = C\<rparr>
                (training_data ?u),
            addDoc_calls := Suc (Suc (addDoc_calls ?u)),
            isLoading := False\<rparr>))"
    using assms(6-11,16-18) av1 by (intro handle_teach) (simp_all add: available_frame n1)
  have td2: "training_data s2 =
      AList.update ?k \<lparr>question = A', answer = C\<rparr> (training_data s1)"
    and ch2: "chat_history s2 = chat_history s1 @
           [\<lparr>sender = ''user'', msg_text = JStr (teach_command A' C)\<rparr>,
            \<lparr>sender = ''bot'', msg_text = JStr ack_text\<rparr>]"
    by (simp_all add: s2_def h2 onSnapshot_frame assms(11))
  have m1: "map_of (training_data s1) ?k = Some \<lparr>question = A, answer = B\<rparr>"
    by (simp add: td1 update_conv')
  have m2: "map_of (training_data s2) ?k = Some \<lparr>question = A', answer = C\<rparr>"
    by (simp add: td2 update_conv')
  have in_docs: "d \<in> set (collection_docs t)" if "map_of (training_data t) ?k = Some d" for t d
  proof -
    from that have "(?k, d) \<in> set (training_data t)" by (rule map_of_SomeD)
    then have "(?k, d) \<in> set (filter (\<lambda>p. length (fst p) = 1) (training_data t))" by simp
    then show ?thesis unfolding collection_docs_def by (metis image_eqI set_map snd_conv)
  qed
  have k: "?k \<in> set (map fst (training_data s1))"
    by (simp add: td1 update_keys)
  have keys: "map fst (training_data s2) = map fst (training_data s1)"
    using k by (simp add: td2 update_keys)
  show ?thesis
    using m1 m2 in_docs [OF m1] in_docs [OF m2] ch1 ch2 keys by simp
qed

theorem teach_upserts_and_overwrites_witness:
  "dquote \<notin> set ''Hi'' \<and> dquote \<notin> set ''HI'' \<and>
   toLowerCase reliable_env ''HI'' = toLowerCase reliable_env ''Hi'' \<and>
   toLowerCase reliable_env ''Hi'' = ''hi'' \<and>
   available ready_state \<and>
   map_of (training_data (snd (handleSendMessage reliable_env
       (ready_state\<lparr>newMessage := teach_command ''Hi'' ''yo''\<rparr>)))) [''hi'']
     = Some \<lparr>question = ''Hi'', answer = ''yo''\<rparr> \<and>
   map_of (training_data (snd (handleSendMessage reliable_env
       ((snd (handleSendMessage reliable_env
          (ready_state\<lparr>newMessage := teach_command ''Hi'' ''yo''\<rparr>)))
        \<lparr>newMessage := teach_command ''HI'' ''hey''\<rparr>)))) [''hi'']
     = Some \<lparr>question = ''HI'', answer = ''hey''\<rparr>"
proof -
  have lc0: "ascii_toLowerCase ''Hi'' = ''hi''" "ascii_toLowerCase ''HI'' = ''hi''"
    by code_simp+
  then have lc: "toLowerCase reliable_env ''Hi'' = ''hi''" "toLowerCase reliable_env ''HI'' = ''hi''"
    by (simp_all add: reliable_env_def)
  have ok: "available ready_state" "addDoc_ok reliable_env n" "setDoc_ok reliable_env" for n
    by (simp_all add: available_def ready_state_def reliable_env_def)
  show ?thesis
    using teach_upserts_and_overwrites [where A = "''Hi''" and B = "''yo''" and A' = "''HI''"
        and C = "''hey''" and s = ready_state and ?e1.0 = reliable_env and ?e2.0 = reliable_env]
    by (simp add: lc ok dquote_def)
qed

text \<open>
  The claim as it is stated, for every question and answer, fails. A double quote inside
  the question is removed, so the pair taught for \<open>a"b\<close> is stored for \<open>ab\<close>. The
  question that is a single space is cut at its own quotes and leaves the empty question;
  for it, as for the empty question itself and for the question \<open>a/b\<close>, the store's
  library refuses the reference to the document, so nothing is stored and the bot reports
  the generic error.
\<close>

theorem teach_quoted_question_counterexample:
  \<open>training_data (snd (handleSendMessage reliable_env
       (ready_state\<lparr>newMessage := teach_command ''a"b'' ''c''\<rparr>)))
     = [([''ab''], \<lparr>question = ''ab'', answer = ''c''\<rparr>)] \<and>
   map_of (training_data (snd (handleSendMessage reliable_env
       (ready_state\<lparr>newMessage := teach_command ''a"b'' ''c''\<rparr>))))
     [toLowerCase reliable_env ''a"b''] = None \<and>
   training_data (snd (handleSendMessage reliable_env
       (ready_state\<lparr>newMessage := teach_command '' '' ''c''\<rparr>))) = [] \<and>
   chat_history (snd (handleSendMessage reliable_env
       (ready_state\<lparr>newMessage := teach_command '' '' ''c''\<rparr>)))
     = [\<lparr>sender = ''user'', msg_text = JStr (teach_command '' '' ''c'')\<rparr>,
        \<lparr>sender = ''bot'', msg_text = JStr oops_text\<rparr>] \<and>
   training_data (snd (handleSendMessage reliable_env
       (ready_state\<lparr>newMessage := teach_command [] ''c''\<rparr>))) = [] \<and>
   chat_history (snd (handleSendMessage reliable_env
       (ready_state\<lparr>newMessage := teach_command [] ''c''\<rparr>)))
     = [\<lparr>sender = ''user'', msg_text = JStr (teach_command [] ''c'')\<rparr>,
        \<lparr>sender = ''bot'', msg_text = JStr oops_text\<rparr>] \<and>
   training_data (snd (handleSendMessage reliable_env
       (ready_state\<lparr>newMessage := teach_command ''a/b'' ''c''\<rparr>))) = [] \<and>
   chat_history (snd (handleSendMessage reliable_env
       (ready_state\<lparr>newMessage := teach_command ''a/b'' ''c''\<rparr>)))
     = [\<lparr>sender = ''user'', msg_text = JStr (teach_command ''a/b'' ''c'')\<rparr>,
        \<lparr>sender = ''bot'', msg_text = JStr oops_text\<rparr>]\<close>
proof -
  have lc: \<open>ascii_toLowerCase ''ab'' = ''ab''\<close> \<open>ascii_toLowerCase ''a"b'' = ''a"b''\<close>
    \<open>ascii_toLowerCase [] = []\<close> \<open>ascii_toLowerCase ''a/b'' = ''a/b''\<close>
    by code_simp+
  show ?thesis
    by (simp add: eval_defs teach_command_def lc)
qed

section \<open>A malformed teach command\<close>

text \<open>
  Claim C3, as amended. The handler accepts what follows the prefix of a teach command
  exactly when cutting it at quote-space-quote gives two parts. For every input whose
  trimmed form starts with the prefix and whose remainder gives any other number of parts,
  no training pair is created, whatever the store answers; and when the store accepts the
  writes, the handler adds the user's message and then the usage guidance of the bot.
\<close>

theorem malformed_teach_gets_usage:
  assumes "available s"
    and "startsWith (trim (newMessage s)) teach_prefix"
    and "length (split (substring (trim (newMessage s)) (length teach_prefix)) teach_sep) \<noteq> 2"
  shows "training_data (snd (handleSendMessage e s)) = training_data s \<and>
         (addDoc_ok e (addDoc_calls s) \<and> addDoc_ok e (Suc (addDoc_calls s)) \<longrightarrow>
            handleSendMessage e s =
              (Inr (), onSnapshot
                 (s\<lparr>newMessage := [],
                    chat_history := chat_history s @
                      [\<lparr>sender = ''user'', msg_text = JStr (trim (newMessage s))\<rparr>,
                       \<lparr>sender = ''bot'', msg_text = JStr usage_text\<rparr>],
                    addDoc_calls := Suc (Suc (addDoc_calls s)),
                    isLoading := False\<rparr>)))"
proof (intro conjI impI)
  let ?um = "trim (newMessage s)"
  let ?s0 = "s\<lparr>isLoading := True, newMessage := []\<rparr>"
  have ne: "?um \<noteq> []"
    using assms(2) by (rule startsWith_nonempty) (simp add: teach_prefix_def)
  have "training_data (snd (handleSendMessage_try e ?um ?s0)) = training_data s"
    using assms(2,3)
    by (simp add: handleSendMessage_try_def addDoc_def training_data_sendBotResponse
          onSnapshot_frame)
  then show "training_data (snd (handleSendMessage e s)) = training_data s"
    by (rule training_data_handler_frame)
  assume ok: "addDoc_ok e (addDoc_calls s) \<and> addDoc_ok e (Suc (addDoc_calls s))"
  have "handleSendMessage_try e ?um ?s0 =
          (Inr (), onSnapshot
             (?s0\<lparr>chat_history := chat_history s @
                      [\<lparr>sender = ''user'', msg_text = JStr ?um\<rparr>,
                       \<lparr>sender = ''bot'', msg_text = JStr usage_text\<rparr>],
                    addDoc_calls := Suc (Suc (addDoc_calls s))\<rparr>))"
    using assms ok
    by (simp add: handleSendMessage_try_def addDoc_def sendBotResponse_def available_frame
          onSnapshot_def listening_frame)
  then show "handleSendMessage e s =
              (Inr (), onSnapshot
                 (s\<lparr>newMessage := [],
                    chat_history := chat_history s @
                      [\<lparr>sender = ''user'', msg_text = JStr (trim (newMessage s))\<rparr>,
                       \<lparr>sender = ''bot'', msg_text = JStr usage_text\<rparr>],
                    addDoc_calls := Suc (Suc (addDoc_calls s)),
                    isLoading := False\<rparr>))"
    using ne assms(1) by (simp add: handleSendMessage_def onSnapshot_def listening_frame)
qed

theorem malformed_teach_gets_usage_witness:
  "startsWith (trim ''/teach bad input'') teach_prefix \<and>
   split (substring (trim ''/teach bad input'') (length teach_prefix)) teach_sep = [''bad input''] \<and>
   handleSendMessage reliable_env (ready_state\<lparr>newMessage := ''/teach bad input''\<rparr>) =
     (Inr (), ready_state\<lparr>messages :=
                  [\<lparr>sender = ''user'', msg_text = JStr ''/teach bad input''\<rparr>,
                   \<lparr>sender = ''bot'', msg_text = JStr usage_text\<rparr>],
                chat_history :=
                  [\<lparr>sender = ''user'', msg_text = JStr ''/teach bad input''\<rparr>,
                   \<lparr>sender = ''bot'', msg_text = JStr usage_text\<rparr>],
                addDoc_calls := 2\<rparr>)"
proof -
  have t: "trim ''/teach bad input'' = ''/teach bad input''"
    by (simp add: trim_def white_space_def startsWith_def)
  have sp: "split (substring ''/teach bad input'' (length teach_prefix)) teach_sep = [''bad input'']"
    by (simp add: split_def substring_def teach_prefix_def teach_sep_def startsWith_def dquote_def)
  show ?thesis
    using malformed_teach_gets_usage [of "ready_state\<lparr>newMessage := ''/teach bad input''\<rparr>" reliable_env]
    by (simp add: t sp)
       (simp add: startsWith_def teach_prefix_def available_def ready_state_def reliable_env_def
          onSnapshot_def listening_def)
qed

text \<open>
  The claim as it is stated, for every remainder outside the grammar of two double-quoted
  segments, fails: the remainder \<open>a" "b\<close> has neither its opening nor its closing quote,
  and the handler stores the pair and acknowledges it.
\<close>

theorem unquoted_teach_counterexample:
  \<open>startsWith (trim ''/teach a" "b'') teach_prefix \<and>
   \<not> spec_two_quoted_segments (substring (trim ''/teach a" "b'') (length teach_prefix)) \<and>
   training_data (snd (handleSendMessage reliable_env (ready_state\<lparr>newMessage := ''/teach a" "b''\<rparr>)))
     = [([''a''], \<lparr>question = ''a'', answer = ''b''\<rparr>)] \<and>
   chat_history (snd (handleSendMessage reliable_env (ready_state\<lparr>newMessage := ''/teach a" "b''\<rparr>)))
     = [\<lparr>sender = ''user'', msg_text = JStr ''/teach a" "b''\<rparr>,
        \<lparr>sender = ''bot'', msg_text = JStr ack_text\<rparr>]\<close>
proof -
  have lc: "ascii_toLowerCase ''a'' = ''a''" by code_simp
  show ?thesis
    by (simp add: eval_defs spec_two_quoted_segments_def spec_quoted_segment_def lc)
qed

section \<open>The reply of the endpoint\<close>

text \<open>
  Claim C4. Let the training data be read and let the endpoint answer with an object whose
  candidates are an array, the first an object whose content is an object whose parts are
  an array, the first an object with a text. When the store accepts the write, the
  inference turn returns normally and adds to the chat history exactly one message, of the
  bot, whose text is that text.
\<close>

theorem endpoint_text_becomes_bot_message:
  assumes "available s" "getDocs_ok e" "addDoc_ok e (addDoc_calls s)"
    and "fetch_result e = Body (JObj fs)"
    and "map_of fs ''candidates'' = Some (JArr (JObj cf # cs))"
    and "map_of cf ''content'' = Some (JObj ctf)"
    and "map_of ctf ''parts'' = Some (JArr (JObj pf # ps))"
    and "map_of pf ''text'' = Some t"
  shows "fst (getBotResponse e msgs um s) = Inr () \<and>
         chat_history (snd (getBotResponse e msgs um s)) =
           chat_history s @ [\<lparr>sender = ''bot'', msg_text = t\<rparr>]"
proof -
  have "intended_reply e s = Inr t"
    using assms(1,2,4) first_candidate_text [OF assms(5-8)]
    by (simp add: intended_reply_def getDocs_available)
  then show ?thesis
    using assms(1,3) by (simp add: getBotResponse_normal_form Let_def onSnapshot_frame after_fetch_frame)
qed

theorem endpoint_text_becomes_bot_message_witness:
  "available ready_state \<and> fetch_result reliable_env = Body hello_response \<and>
   fst (getBotResponse reliable_env [] ''hi'' ready_state) = Inr () \<and>
   chat_history (snd (getBotResponse reliable_env [] ''hi'' ready_state)) =
     [\<lparr>sender = ''bot'', msg_text = JStr ''hello''\<rparr>]"
  using endpoint_text_becomes_bot_message [of ready_state reliable_env
      "[(''candidates'', JArr [JObj [(''content'', JObj [(''parts'', JArr [JObj [(''text'', JStr ''hello'')]])])]])]"
      "[(''content'', JObj [(''parts'', JArr [JObj [(''text'', JStr ''hello'')]])])]" "[]"
      "[(''parts'', JArr [JObj [(''text'', JStr ''hello'')]])]"
      "[(''text'', JStr ''hello'')]" "[]" "JStr ''hello''" "[]" "''hi''"]
  by (simp add: available_def ready_state_def reliable_env_def hello_response_def)

section \<open>Every outcome of the inference turn\<close>

text \<open>
  Claim C5, as amended. In every outcome the inference turn adds at most one message of
  the bot, and none when an exception escapes. Whenever the store accepts the first write
  the turn issues, it adds exactly one and returns normally: with the text asking to
  rephrase when the test of the shape of the response evaluates to false, and with the
  text about trouble connecting when the read of the training data, the call, the decoding
  of the body, or the evaluation of the shape test or of the text raises. An exception
  escapes only as the store's refusal of a write.
\<close>

theorem inference_turn_outcomes:
  assumes "available s"
  shows "(addDoc_ok e (addDoc_calls s) \<longrightarrow>
            fst (getBotResponse e msgs um s) = Inr () \<and>
            (\<exists>t. chat_history (snd (getBotResponse e msgs um s)) =
                   chat_history s @ [\<lparr>sender = ''bot'', msg_text = t\<rparr>])) \<and>
         (fst (getBotResponse e msgs um s) = Inr () \<longrightarrow>
            (\<exists>t. chat_history (snd (getBotResponse e msgs um s)) =
                   chat_history s @ [\<lparr>sender = ''bot'', msg_text = t\<rparr>])) \<and>
         (\<forall>err. fst (getBotResponse e msgs um s) = Inl err \<longrightarrow>
            err = StoreWriteFailure \<and> \<not> addDoc_ok e (addDoc_calls s) \<and>
            chat_history (snd (getBotResponse e msgs um s)) = chat_history s) \<and>
         (addDoc_ok e (addDoc_calls s) \<and> getDocs_ok e \<and>
          (\<exists>r. fetch_result e = Body r \<and> shape_test (coerce_gt0 e) r = Inr False) \<longrightarrow>
            chat_history (snd (getBotResponse e msgs um s)) =
              chat_history s @ [\<lparr>sender = ''bot'', msg_text = JStr rephrase_text\<rparr>]) \<and>
         (addDoc_ok e (addDoc_calls s) \<and>
          (\<not> getDocs_ok e \<or> fetch_result e = NetworkError \<or> fetch_result e = BodyNotJSON \<or>
           (\<exists>r err. fetch_result e = Body r \<and>
              (shape_test (coerce_gt0 e) r = Inl err \<or>
               shape_test (coerce_gt0 e) r = Inr True \<and> botText r = Inl err))) \<longrightarrow>
            chat_history (snd (getBotResponse e msgs um s)) =
              chat_history s @ [\<lparr>sender = ''bot'', msg_text = JStr trouble_text\<rparr>])"
proof (intro conjI impI allI)
  note nf = getBotResponse_normal_form [OF assms, of e msgs um]
  show "fst (getBotResponse e msgs um s) = Inr ()" if "addDoc_ok e (addDoc_calls s)"
    using that by (simp add: nf Let_def onSnapshot_frame after_fetch_frame split: sum.splits)
  show "\<exists>t. chat_history (snd (getBotResponse e msgs um s)) =
              chat_history s @ [\<lparr>sender = ''bot'', msg_text = t\<rparr>]"
    if "addDoc_ok e (addDoc_calls s)"
    using that by (simp add: nf Let_def onSnapshot_frame after_fetch_frame split: sum.splits)
  show "\<exists>t. chat_history (snd (getBotResponse e msgs um s)) =
              chat_history s @ [\<lparr>sender = ''bot'', msg_text = t\<rparr>]"
    if "fst (getBotResponse e msgs um s) = Inr ()"
    using that by (simp add: nf Let_def onSnapshot_frame after_fetch_frame split: sum.splits if_splits)
  show "err = StoreWriteFailure" if "fst (getBotResponse e msgs um s) = Inl err" for err
    using that by (simp add: nf Let_def onSnapshot_frame after_fetch_frame split: sum.splits if_splits)
  show "\<not> addDoc_ok e (addDoc_calls s)" if "fst (getBotResponse e msgs um s) = Inl err" for err
    using that by (simp add: nf Let_def onSnapshot_frame after_fetch_frame split: sum.splits if_splits)
  show "chat_history (snd (getBotResponse e msgs um s)) = chat_history s"
    if "fst (getBotResponse e msgs um s) = Inl err" for err
    using that by (simp add: nf Let_def after_fetch_frame onSnapshot_frame split: sum.splits if_splits)
  show "chat_history (snd (getBotResponse e msgs um s)) =
              chat_history s @ [\<lparr>sender = ''bot'', msg_text = JStr rephrase_text\<rparr>]"
    if "addDoc_ok e (addDoc_calls s) \<and> getDocs_ok e \<and>
          (\<exists>r. fetch_result e = Body r \<and> shape_test (coerce_gt0 e) r = Inr False)"
  proof -
    have "intended_reply e s = Inr (JStr rephrase_text)"
      using that assms by (auto simp: intended_reply_def getDocs_available)
    then show ?thesis using that by (simp add: nf Let_def onSnapshot_frame after_fetch_frame)
  qed
  show "chat_history (snd (getBotResponse e msgs um s)) =
              chat_history s @ [\<lparr>sender = ''bot'', msg_text = JStr trouble_text\<rparr>]"
    if "addDoc_ok e (addDoc_calls s) \<and>
          (\<not> getDocs_ok e \<or> fetch_result e = NetworkError \<or> fetch_result e = BodyNotJSON \<or>
           (\<exists>r err. fetch_result e = Body r \<and>
              (shape_test (coerce_gt0 e) r = Inl err \<or>
               shape_test (coerce_gt0 e) r = Inr True \<and> botText r = Inl err)))"
  proof -
    have "\<exists>err. intended_reply e s = Inl err"
      using that assms
      by (auto simp: intended_reply_def getDocs_available split: sum.splits)
    then show ?thesis using that by (auto simp: nf Let_def onSnapshot_frame after_fetch_frame)
  qed
qed

theorem inference_turn_outcomes_witness:
  "available ready_state \<and>
   shape_test (coerce_gt0 reliable_env) (JObj []) = Inr False \<and>
   fst (getBotResponse (reliable_env\<lparr>fetch_result := Body (JObj [])\<rparr>) [] ''hi'' ready_state) = Inr () \<and>
   chat_history (snd (getBotResponse (reliable_env\<lparr>fetch_result := Body (JObj [])\<rparr>) [] ''hi'' ready_state))
     = [\<lparr>sender = ''bot'', msg_text = JStr rephrase_text\<rparr>] \<and>
   chat_history (snd (getBotResponse (reliable_env\<lparr>fetch_result := NetworkError\<rparr>) [] ''hi'' ready_state))
     = [\<lparr>sender = ''bot'', msg_text = JStr trouble_text\<rparr>] \<and>
   fst (getBotResponse store_down_env [] ''hi'' ready_state) = Inl StoreWriteFailure \<and>
   chat_history (snd (getBotResponse store_down_env [] ''hi'' ready_state)) = []"
proof -
  have av: "available ready_state" by (simp add: available_def ready_state_def)
  have sh: "shape_test (coerce_gt0 reliable_env) (JObj []) = Inr False"
    by (simp add: shape_test_def and_then_def)
  have dn: "fst (getBotResponse store_down_env [] ''hi'' ready_state) = Inl StoreWriteFailure"
    by (simp add: infer_eval_defs)
  show ?thesis
    using inference_turn_outcomes [OF av, of "reliable_env\<lparr>fetch_result := Body (JObj [])\<rparr>" "[]" "''hi''"]
      inference_turn_outcomes [OF av, of "reliable_env\<lparr>fetch_result := NetworkError\<rparr>" "[]" "''hi''"]
      inference_turn_outcomes [OF av, of store_down_env "[]" "''hi''"]
      av sh dn
    by (simp add: reliable_env_def ready_state_def)
qed

text \<open>
  The claim as it is stated fails in two ways. When the store refuses every read and
  write, the exception of the fallback write escapes and no message is written. And the
  response \<open>null\<close>, which lacks the shape, makes the shape test raise, so the message
  carries the text about trouble connecting and not the one asking to rephrase.
\<close>

theorem inference_turn_counterexample:
  "fst (getBotResponse store_down_env [] ''hi'' ready_state) = Inl StoreWriteFailure \<and>
   chat_history (snd (getBotResponse store_down_env [] ''hi'' ready_state)) = [] \<and>
   fst (getBotResponse (reliable_env\<lparr>fetch_result := Body JNull\<rparr>) [] ''hi'' ready_state) = Inr () \<and>
   chat_history (snd (getBotResponse (reliable_env\<lparr>fetch_result := Body JNull\<rparr>) [] ''hi'' ready_state))
     = [\<lparr>sender = ''bot'', msg_text = JStr trouble_text\<rparr>] \<and>
   trouble_text \<noteq> rephrase_text"
  by (simp add: infer_eval_defs trouble_text_def rephrase_text_def)

section \<open>Clearing the local view\<close>

text \<open>
  What the clear branch does, for every input whose trimmed form starts with the clear
  prefix, when the store accepts the two writes: the handler empties the local view, then
  adds the confirmation to the store, and the listener, if it is subscribed, puts the
  whole chat history back into the view.
\<close>

lemma clear_branch:
  assumes "available s"
    and "startsWith (trim (newMessage s)) clear_prefix"
    and "addDoc_ok e (addDoc_calls s)" "addDoc_ok e (Suc (addDoc_calls s))"
  shows "handleSendMessage e s =
           (Inr (), onSnapshot
              (s\<lparr>messages := [], newMessage := [],
                 chat_history := chat_history s @
                   [\<lparr>sender = ''user'', msg_text = JStr (trim (newMessage s))\<rparr>,
                    \<lparr>sender = ''bot'', msg_text = JStr cleared_text\<rparr>],
                 addDoc_calls := Suc (Suc (addDoc_calls s)),
                 isLoading := False\<rparr>))"
proof -
  let ?um = "trim (newMessage s)"
  let ?s0 = "s\<lparr>isLoading := True, newMessage := []\<rparr>"
  have ne: "?um \<noteq> []"
    using assms(2) by (rule startsWith_nonempty) (simp add: clear_prefix_def)
  have nt: "\<not> startsWith ?um teach_prefix"
    using assms(2) by (rule startsWith_clear_not_teach)
  have "handleSendMessage_try e ?um ?s0 =
          (Inr (), onSnapshot
             (?s0\<lparr>messages := [],
                  chat_history := chat_history s @
                    [\<lparr>sender = ''user'', msg_text = JStr ?um\<rparr>,
                     \<lparr>sender = ''bot'', msg_text = JStr cleared_text\<rparr>],
                  addDoc_calls := Suc (Suc (addDoc_calls s))\<rparr>))"
    using assms nt
    by (simp add: handleSendMessage_try_def addDoc_def sendBotResponse_def available_frame
          onSnapshot_def listening_frame)
  then show ?thesis
    using ne assms(1) by (simp add: handleSendMessage_def onSnapshot_def listening_frame)
qed

text \<open>
  Claim C6. The claim says that the clear command empties the local view of the
  transcript. In a signed-in session whose view shows one exchange, the command is
  accepted, the store keeps its earlier messages and gains the user's message and exactly
  one confirmation of the bot; but the view is not empty afterwards: the handler's own
  write of the confirmation makes the listener reload the view, which then shows the
  earlier exchange, the command and the confirmation.
\<close>

theorem clear_view_is_refilled:
  "fst (handleSendMessage reliable_env (chatting_state\<lparr>newMessage := ''/clear''\<rparr>)) = Inr () \<and>
   chat_history (snd (handleSendMessage reliable_env (chatting_state\<lparr>newMessage := ''/clear''\<rparr>))) =
     [\<lparr>sender = ''user'', msg_text = JStr ''hi''\<rparr>,
      \<lparr>sender = ''bot'', msg_text = JStr ''hello''\<rparr>,
      \<lparr>sender = ''user'', msg_text = JStr ''/clear''\<rparr>,
      \<lparr>sender = ''bot'', msg_text = JStr cleared_text\<rparr>] \<and>
   messages (snd (handleSendMessage reliable_env (chatting_state\<lparr>newMessage := ''/clear''\<rparr>))) =
     [\<lparr>sender = ''user'', msg_text = JStr ''hi''\<rparr>,
      \<lparr>sender = ''bot'', msg_text = JStr ''hello''\<rparr>,
      \<lparr>sender = ''user'', msg_text = JStr ''/clear''\<rparr>,
      \<lparr>sender = ''bot'', msg_text = JStr cleared_text\<rparr>]"
  by (simp add: eval_defs chatting_state_def)

section \<open>The turns sent to the endpoint\<close>

text \<open>
  Claim C7. When the training data is read, the inference turn hands to the endpoint one
  list of turns: one turn for each message of the loaded transcript, in its order, tagged
  user when the sender is the user and model otherwise, with the text of the message;
  followed by exactly one final turn, whose text is the fixed opening, then one line
  \<open>User asked "question", I responded "answer".\<close> for each training pair of the
  collection, in the order read, with a line feed between two lines, then the fixed
  sentence that introduces the message, then the user's message as it is.
\<close>

theorem turn_list_sent_to_endpoint:
  assumes "available s" "getDocs_ok e"
  shows \<open>\<exists>payload pairs.
           pairs = map snd (filter (\<lambda>d. length (fst d) = 1) (training_data s)) \<and>
           requests (snd (getBotResponse e msgs um s)) = requests s @ [payload] \<and>
           length payload = length msgs + 1 \<and>
           (\<forall>i < length msgs.
              role (payload ! i) = (if sender (msgs ! i) = ''user'' then ''user'' else ''model'') \<and>
              parts (payload ! i) = [msg_text (msgs ! i)]) \<and>
           last payload =
             \<lparr>role = ''user'',
              parts = [JStr
                (''You are a blank chatbot being trained. Here's some training data I've provided you:''
                 @ [CHR 0x0A]
                 @ (case pairs of
                      [] \<Rightarrow> []
                    | d # ds \<Rightarrow>
                        (''User asked "'' @ question d @ ''", I responded "'' @ answer d @ ''".'')
                        @ concat (map (\<lambda>x. CHR 0x0A #
                            (''User asked "'' @ question x @ ''", I responded "'' @ answer x
                             @ ''".'')) ds))
                 @ [CHR 0x0A, CHR 0x0A]
                 @ ''Based on our conversation history and the training data, please respond to the following:''
                 @ [CHR 0x0A]
                 @ um)]\<rparr>\<close>
proof -
  let ?pairs = "map snd (filter (\<lambda>d. length (fst d) = 1) (training_data s))"
  let ?payload = "build_contents msgs ?pairs um"
  have 1: "requests (snd (getBotResponse e msgs um s)) = requests s @ [?payload]"
    using requests_getBotResponse [OF assms, of msgs um] by (simp add: collection_docs_def)
  have 2: "length ?payload = length msgs + 1"
    by (simp add: build_contents_def)
  have 3: "role (?payload ! i) = (if sender (msgs ! i) = ''user'' then ''user'' else ''model'') \<and>
           parts (?payload ! i) = [msg_text (msgs ! i)]" if "i < length msgs" for i
    using that by (simp add: build_contents_def nth_append)
  have 4: \<open>last (build_contents msgs ps um) =
             \<lparr>role = ''user'',
              parts = [JStr
                (''You are a blank chatbot being trained. Here's some training data I've provided you:''
                 @ [CHR 0x0A]
                 @ (case ps of
                      [] \<Rightarrow> []
                    | d # ds \<Rightarrow>
                        (''User asked "'' @ question d @ ''", I responded "'' @ answer d @ ''".'')
                        @ concat (map (\<lambda>x. CHR 0x0A #
                            (''User asked "'' @ question x @ ''", I responded "'' @ answer x
                             @ ''".'')) ds))
                 @ [CHR 0x0A, CHR 0x0A]
                 @ ''Based on our conversation history and the training data, please respond to the following:''
                 @ [CHR 0x0A]
                 @ um)]\<rparr>\<close> for ps
  proof -
    have block: \<open>join [CHR 0x0A] (map training_line ps) =
        (case ps of
           [] \<Rightarrow> []
         | d # ds \<Rightarrow>
             (''User asked "'' @ question d @ ''", I responded "'' @ answer d @ ''".'')
             @ concat (map (\<lambda>x. CHR 0x0A #
                 (''User asked "'' @ question x @ ''", I responded "'' @ answer x
                  @ ''".'')) ds))\<close>
      by (cases ps) (simp_all add: join_def training_line_def comp_def)
    show ?thesis
      by (simp add: build_contents_def block prompt_head_def prompt_mid_def newline_def)
  qed
  show ?thesis using 1 2 3 4 [of ?pairs] by blast
qed

theorem turn_list_sent_to_endpoint_witness:
  \<open>available chatting_state \<and> getDocs_ok reliable_env \<and>
   (\<exists>payload.
      requests (snd (getBotResponse reliable_env (messages chatting_state) ''why?''
         (chatting_state\<lparr>training_data :=
            [([''q1''], \<lparr>question = ''Q1'', answer = ''A1''\<rparr>),
             ([''x'', ''y'', ''z''], \<lparr>question = ''Q0'', answer = ''A0''\<rparr>),
             ([''q2''], \<lparr>question = ''Q2'', answer = ''A2''\<rparr>)]\<rparr>))) = [payload] \<and>
      length payload = 3 \<and>
      role (payload ! 0) = ''user'' \<and> parts (payload ! 0) = [JStr ''hi''] \<and>
      role (payload ! 1) = ''model'' \<and> parts (payload ! 1) = [JStr ''hello''] \<and>
      last payload =
        \<lparr>role = ''user'',
         parts = [JStr
           (''You are a blank chatbot being trained. Here's some training data I've provided you:''
            @ [CHR 0x0A]
            @ ''User asked "Q1", I responded "A1".''
            @ [CHR 0x0A]
            @ ''User asked "Q2", I responded "A2".''
            @ [CHR 0x0A, CHR 0x0A]
            @ ''Based on our conversation history and the training data, please respond to the following:''
            @ [CHR 0x0A]
            @ ''why?'')]\<rparr>)\<close>
proof -
  let ?s = "chatting_state\<lparr>training_data :=
            [([''q1''], \<lparr>question = ''Q1'', answer = ''A1''\<rparr>),
             ([''x'', ''y'', ''z''], \<lparr>question = ''Q0'', answer = ''A0''\<rparr>),
             ([''q2''], \<lparr>question = ''Q2'', answer = ''A2''\<rparr>)]\<rparr>"
  let ?msgs = "messages chatting_state"
  have av: "available ?s" and av0: "available chatting_state"
    by (simp_all add: available_def chatting_state_def ready_state_def)
  have gd: "getDocs_ok reliable_env" by (simp add: reliable_env_def)
  have ms: "?msgs = [\<lparr>sender = ''user'', msg_text = JStr ''hi''\<rparr>,
                     \<lparr>sender = ''bot'', msg_text = JStr ''hello''\<rparr>]"
    and rq: "requests ?s = []"
    by (simp_all add: chatting_state_def ready_state_def)
  from turn_list_sent_to_endpoint [OF av gd, of ?msgs "''why?''"]
  obtain payload where p:
    "requests (snd (getBotResponse reliable_env ?msgs ''why?'' ?s)) = [payload]"
    "length payload = 3"
    "\<forall>i < 2. role (payload ! i) = (if sender (?msgs ! i) = ''user'' then ''user'' else ''model'') \<and>
              parts (payload ! i) = [msg_text (?msgs ! i)]"
    \<open>last payload =
        \<lparr>role = ''user'',
         parts = [JStr
           (''You are a blank chatbot being trained. Here's some training data I've provided you:''
            @ [CHR 0x0A]
            @ ''User asked "Q1", I responded "A1".''
            @ [CHR 0x0A]
            @ ''User asked "Q2", I responded "A2".''
            @ [CHR 0x0A, CHR 0x0A]
            @ ''Based on our conversation history and the training data, please respond to the following:''
            @ [CHR 0x0A]
            @ ''why?'')]\<rparr>\<close>
    by (auto simp: ms rq)
  from p(3) have "role (payload ! 0) = ''user'' \<and> parts (payload ! 0) = [JStr ''hi'']"
    and "role (payload ! 1) = ''model'' \<and> parts (payload ! 1) = [JStr ''hello'']"
    by (simp_all add: ms)
  with p(1,2,4) av0 gd show ?thesis by blast
qed

section \<open>Failures while handling a submission\<close>

text \<open>
  Claim C8, as amended. Let a submission pass the guard. In every outcome the busy flag
  is cleared. If the body of the try raises a failure, be it from the write of the user's
  message, of a training pair or of a reply, the handler tries to add the generic error
  message of the bot: when the store accepts that write, the message follows what the
  history held at the failure and the handler returns normally; when the store refuses it,
  nothing is added and the refusal reaches the caller. With a store that accepts every
  addition to the chat history no failure reaches the caller.
\<close>

theorem failure_is_reported_and_busy_flag_cleared:
  assumes "trim (newMessage s) \<noteq> []" "available s"
  shows "isLoading (snd (handleSendMessage e s)) = False \<and>
         (\<forall>err s1.
            handleSendMessage_try e (trim (newMessage s)) (s\<lparr>isLoading := True, newMessage := []\<rparr>)
              = (Inl err, s1) \<longrightarrow>
            (if addDoc_ok e (addDoc_calls s1)
             then fst (handleSendMessage e s) = Inr () \<and>
                  chat_history (snd (handleSendMessage e s)) =
                    chat_history s1 @ [\<lparr>sender = ''bot'', msg_text = JStr oops_text\<rparr>]
             else fst (handleSendMessage e s) = Inl StoreWriteFailure \<and>
                  chat_history (snd (handleSendMessage e s)) = chat_history s1)) \<and>
         ((\<forall>n. addDoc_ok e n) \<longrightarrow> fst (handleSendMessage e s) = Inr ())"
proof -
  let ?s0 = "s\<lparr>isLoading := True, newMessage := []\<rparr>"
  obtain r s1 where t: "handleSendMessage_try e (trim (newMessage s)) ?s0 = (r, s1)"
    by (cases "handleSendMessage_try e (trim (newMessage s)) ?s0")
  have av: "available s1"
    using available_try [of e "trim (newMessage s)" ?s0] assms(2) by (simp add: t available_frame)
  note h = handler_after_guard [OF assms t]
  have 1: "isLoading (snd (handleSendMessage e s)) = False"
    by (cases r) (simp_all add: h sendBotResponse_available [OF av] onSnapshot_frame)
  have 2: "fst (handleSendMessage e s) = Inr () \<and>
           chat_history (snd (handleSendMessage e s)) =
             chat_history s1 @ [\<lparr>sender = ''bot'', msg_text = JStr oops_text\<rparr>]"
    if "r = Inl err" "addDoc_ok e (addDoc_calls s1)" for err
    using that by (simp add: h sendBotResponse_available [OF av] onSnapshot_frame)
  have 3: "fst (handleSendMessage e s) = Inl StoreWriteFailure \<and>
           chat_history (snd (handleSendMessage e s)) = chat_history s1"
    if "r = Inl err" "\<not> addDoc_ok e (addDoc_calls s1)" for err
    using that by (simp add: h sendBotResponse_available [OF av] onSnapshot_frame)
  have 4: "fst (handleSendMessage e s) = Inr ()" if "\<forall>n. addDoc_ok e n"
    using that by (cases r) (simp_all add: h sendBotResponse_available [OF av] onSnapshot_frame)
  show ?thesis using 1 2 3 4 by (auto simp: t)
qed

theorem failure_is_reported_and_busy_flag_cleared_witness:
  "trim (teach_command ''q'' ''a'') \<noteq> [] \<and> available ready_state \<and>
   isLoading (snd (handleSendMessage training_store_down_env
      (ready_state\<lparr>newMessage := teach_command ''q'' ''a''\<rparr>))) = False \<and>
   fst (handleSendMessage training_store_down_env
      (ready_state\<lparr>newMessage := teach_command ''q'' ''a''\<rparr>)) = Inr () \<and>
   chat_history (snd (handleSendMessage training_store_down_env
      (ready_state\<lparr>newMessage := teach_command ''q'' ''a''\<rparr>))) =
     [\<lparr>sender = ''user'', msg_text = JStr (teach_command ''q'' ''a'')\<rparr>,
      \<lparr>sender = ''bot'', msg_text = JStr oops_text\<rparr>]"
proof -
  let ?s = "ready_state\<lparr>newMessage := teach_command ''q'' ''a''\<rparr>"
  let ?e = training_store_down_env
  have ne: "trim (newMessage ?s) \<noteq> []"
    by (simp add: trim_teach_command) (simp add: teach_command_def)
  have av: "available ?s" and av0: "available ready_state"
    by (simp_all add: available_def ready_state_def)
  have lc0: "ascii_toLowerCase ''q'' = ''q''" by code_simp
  have dr: "doc_ref ''q'' = Inr [''q'']" by (rule doc_ref_single) simp_all
  have sp: "split (substring (teach_command ''q'' ''a'') (length teach_prefix)) teach_sep
              = [dquote # ''q'', ''a'' @ [dquote]]"
    using split_teach [of "''q''" "''a''"]
    by (simp only: substring_teach_command) (simp add: dquote_def)
  have t: "handleSendMessage_try ?e (trim (newMessage ?s)) (?s\<lparr>isLoading := True, newMessage := []\<rparr>)
      = (Inl StoreWriteFailure,
         ?s\<lparr>isLoading := True, newMessage := [],
             messages := [\<lparr>sender = ''user'', msg_text = JStr (teach_command ''q'' ''a'')\<rparr>],
             chat_history := [\<lparr>sender = ''user'', msg_text = JStr (teach_command ''q'' ''a'')\<rparr>],
             addDoc_calls := 1\<rparr>)"
    by (simp add: trim_teach_command handleSendMessage_try_def addDoc_def
          startsWith_teach_command sp saveTrainingData_def available_def lc0 dr
          replace_quotes_def dquote_def onSnapshot_def listening_def Let_def
          training_store_down_env_def reliable_env_def ready_state_def)
  have ok: "addDoc_ok ?e 1" by (simp add: training_store_down_env_def reliable_env_def)
  show ?thesis
    using failure_is_reported_and_busy_flag_cleared [OF ne av, of ?e] t ok ne av0
    by simp
qed

text \<open>
  The claim as it is stated fails when the store refuses every write: the write of the
  user's message fails, the write of the generic error message fails in the catch, the
  failure reaches the caller, and no message has been emitted.
\<close>

theorem failure_propagates_counterexample:
  "fst (handleSendMessage store_down_env (ready_state\<lparr>newMessage := ''hi''\<rparr>))
     = Inl StoreWriteFailure \<and>
   chat_history (snd (handleSendMessage store_down_env (ready_state\<lparr>newMessage := ''hi''\<rparr>))) = []"
  by (simp add: eval_defs store_down_env_def)


section \<open>No double quote in a taught pair\<close>

text \<open>
  Claim C9. When a teach command is accepted, that is when cutting its remainder gives
  two parts, and the store accepts the writes, then either the store's library refuses
  the lower-cased question as a document identifier and nothing is stored, or the pair
  stored at the document it names has as question and answer the two parts with every
  double quote removed, so neither holds a double quote. Moreover a submission, whatever its input and whatever the
  store and the endpoint answer, keeps a store of pairs free of double quotes free of them.
\<close>

theorem taught_pair_has_no_quotes:
  "(quote_free_store s \<longrightarrow> quote_free_store (snd (handleSendMessage e s))) \<and>
   (available s \<and> startsWith (trim (newMessage s)) teach_prefix \<and>
    split (substring (trim (newMessage s)) (length teach_prefix)) teach_sep = [p0, p1] \<and>
    addDoc_ok e (addDoc_calls s) \<and> setDoc_ok e \<longrightarrow>
      (case doc_ref (toLowerCase e (replace_quotes p0)) of
         Inl err \<Rightarrow> training_data (snd (handleSendMessage e s)) = training_data s
       | Inr path \<Rightarrow>
           (\<exists>d. map_of (training_data (snd (handleSendMessage e s))) path = Some d \<and>
                question d = replace_quotes p0 \<and> answer d = replace_quotes p1 \<and>
                dquote \<notin> set (question d) \<and> dquote \<notin> set (answer d))))"
proof (intro conjI impI)
  let ?um = "trim (newMessage s)"
  let ?s0 = "s\<lparr>isLoading := True, newMessage := []\<rparr>"
  {
    assume q: "quote_free_store s"
    then have "quote_free_store ?s0" by (simp add: quote_free_store_def)
    then have "quote_free_store (snd (handleSendMessage_try e ?um ?s0))"
      by (rule quote_free_try)
    then show "quote_free_store (snd (handleSendMessage e s))"
      using q by (simp add: quote_free_store_def training_data_handler)
  }
  assume a: "available s \<and> startsWith ?um teach_prefix \<and>
    split (substring ?um (length teach_prefix)) teach_sep = [p0, p1] \<and>
    addDoc_ok e (addDoc_calls s) \<and> setDoc_ok e"
  then have ne: "?um \<noteq> []"
    using startsWith_nonempty [of ?um teach_prefix] by (simp add: teach_prefix_def)
  have "training_data (snd (handleSendMessage_try e ?um ?s0)) =
          (case doc_ref (toLowerCase e (replace_quotes p0)) of
             Inl err \<Rightarrow> training_data s
           | Inr path \<Rightarrow>
               AList.update path
                 \<lparr>question = replace_quotes p0, answer = replace_quotes p1\<rparr> (training_data s))"
    using a
    by (simp add: handleSendMessage_try_def addDoc_def saveTrainingData_def available_frame
          training_data_sendBotResponse Let_def onSnapshot_frame split: sum.splits)
  then have "training_data (snd (handleSendMessage e s)) =
          (case doc_ref (toLowerCase e (replace_quotes p0)) of
             Inl err \<Rightarrow> training_data s
           | Inr path \<Rightarrow>
               AList.update path
                 \<lparr>question = replace_quotes p0, answer = replace_quotes p1\<rparr> (training_data s))"
    using a ne by (simp add: training_data_handler)
  then show "case doc_ref (toLowerCase e (replace_quotes p0)) of
         Inl err \<Rightarrow> training_data (snd (handleSendMessage e s)) = training_data s
       | Inr path \<Rightarrow>
           (\<exists>d. map_of (training_data (snd (handleSendMessage e s))) path = Some d \<and>
                question d = replace_quotes p0 \<and> answer d = replace_quotes p1 \<and>
                dquote \<notin> set (question d) \<and> dquote \<notin> set (answer d))"
    by (simp add: dquote_replace_quotes update_conv' split: sum.splits)
qed

theorem taught_pair_has_no_quotes_witness:
  \<open>quote_free_store ready_state \<and>
   quote_free_store (snd (handleSendMessage reliable_env
      (ready_state\<lparr>newMessage := ''/teach "say "hi"" "ok"''\<rparr>))) \<and>
   split (substring (trim ''/teach "say "hi"" "ok"'') (length teach_prefix)) teach_sep
     = [''"say "hi"'', ''ok"''] \<and>
   (\<exists>d. map_of (training_data (snd (handleSendMessage reliable_env
            (ready_state\<lparr>newMessage := ''/teach "say "hi"" "ok"''\<rparr>)))) [''say hi''] = Some d \<and>
        question d = ''say hi'' \<and> answer d = ''ok'')\<close>
proof -
  have t: \<open>trim ''/teach "say "hi"" "ok"'' = ''/teach "say "hi"" "ok"''\<close>
    by (simp add: trim_def white_space_def startsWith_def)
  have sp: \<open>split (substring ''/teach "say "hi"" "ok"'' (length teach_prefix)) teach_sep
     = [''"say "hi"'', ''ok"'']\<close>
    by (simp add: split_def substring_def teach_prefix_def teach_sep_def startsWith_def dquote_def)
  have rq: \<open>replace_quotes ''"say "hi"'' = ''say hi''\<close> \<open>replace_quotes ''ok"'' = ''ok''\<close>
    by (simp_all add: replace_quotes_def dquote_def)
  have lc0: "ascii_toLowerCase ''say hi'' = ''say hi''" by code_simp
  then have lc: "toLowerCase reliable_env ''say hi'' = ''say hi''"
    by (simp add: reliable_env_def)
  have dr: "doc_ref ''say hi'' = Inr [''say hi'']" by (rule doc_ref_single) simp_all
  let ?s = \<open>ready_state\<lparr>newMessage := ''/teach "say "hi"" "ok"''\<rparr>\<close>
  note th = taught_pair_has_no_quotes [of ?s reliable_env \<open>''"say "hi"''\<close> \<open>''ok"''\<close>]
  have q0: "quote_free_store ?s" and q1: "quote_free_store ready_state"
    by (simp_all add: quote_free_store_def ready_state_def)
  have h: "available ?s \<and> startsWith (trim (newMessage ?s)) teach_prefix \<and>
      addDoc_ok reliable_env (addDoc_calls ?s) \<and> setDoc_ok reliable_env"
    by (simp add: t startsWith_def teach_prefix_def available_def ready_state_def reliable_env_def)
  have c1: "quote_free_store (snd (handleSendMessage reliable_env ?s))"
    using th q0 by blast
  have c2: \<open>\<exists>d. map_of (training_data (snd (handleSendMessage reliable_env ?s))) [''say hi''] = Some d \<and>
        question d = ''say hi'' \<and> answer d = ''ok''\<close>
    using th h sp by (auto simp: t rq lc dr)
  show ?thesis
    using q1 c1 c2 sp by (simp add: t)
qed


section \<open>The teach prefix needs its space\<close>

text \<open>
  Claim C10. Let the trimmed input start with \<open>/teach\<close> but not with \<open>/teach\<close>
  followed by a space; this covers the input that is exactly \<open>/teach\<close>. Then the body of
  the try is the addition of the user's message followed by the inference turn on that
  input; no training pair is created; when the store accepts the user's message and the
  training data is read, one request goes to the endpoint, whose final turn ends with the
  input as it is; and no message added to the history carries the usage guidance, unless
  the endpoint itself answered with that text.
\<close>

theorem bare_teach_goes_to_inference:
  fixes s :: app_state and e :: env
  defines "um \<equiv> trim (newMessage s)"
  assumes "available s" "startsWith um ''/teach''" "\<not> startsWith um teach_prefix"
  shows "handleSendMessage_try e um (s\<lparr>isLoading := True, newMessage := []\<rparr>) =
           (case addDoc e \<lparr>sender = ''user'', msg_text = JStr um\<rparr>
                   (s\<lparr>isLoading := True, newMessage := []\<rparr>) of
              (Inl err, s1) \<Rightarrow> (Inl err, s1)
            | (Inr u, s1) \<Rightarrow> getBotResponse e (messages s) um s1) \<and>
         training_data (snd (handleSendMessage e s)) = training_data s \<and>
         (addDoc_ok e (addDoc_calls s) \<and> getDocs_ok e \<longrightarrow>
            (\<exists>payload. requests (snd (handleSendMessage e s)) = requests s @ [payload] \<and>
               last payload =
                 \<lparr>role = ''user'',
                  parts = [JStr (prompt_head
                            @ join [newline] (map training_line (collection_docs s))
                            @ prompt_mid @ um)]\<rparr>)) \<and>
         (\<exists>new. chat_history (snd (handleSendMessage e s)) = chat_history s @ new \<and>
            (\<forall>m \<in> set new.
               msg_text m = JStr usage_text \<longrightarrow>
               (\<exists>r. fetch_result e = Body r \<and> botText r = Inr (JStr usage_text))))"
proof -
  let ?s0 = "s\<lparr>isLoading := True, newMessage := []\<rparr>"
  let ?user = "\<lparr>sender = ''user'', msg_text = JStr um\<rparr>"
  let ?generic = "\<lparr>sender = ''bot'', msg_text = JStr oops_text\<rparr>"
  let ?P = "\<lambda>m. msg_text m = JStr usage_text \<longrightarrow>
               (\<exists>r. fetch_result e = Body r \<and> botText r = Inr (JStr usage_text))"
  have nc: "\<not> startsWith um clear_prefix"
    using assms(3) by (rule startsWith_teach_not_clear)
  have ne: "trim (newMessage s) \<noteq> []"
    using startsWith_nonempty [OF assms(3)] by (simp add: um_def)
  have br: "handleSendMessage_try e um ?s0 =
           (case addDoc e ?user ?s0 of
              (Inl err, s1) \<Rightarrow> (Inl err, s1)
            | (Inr u, s1) \<Rightarrow> getBotResponse e (messages s) um s1)"
    using assms(4) nc by (simp add: handleSendMessage_try_def split: prod.splits sum.splits)
  have Puser: "?P ?user" using usage_text_distinct(4) [OF assms(3)] by simp
  have Poops: "?P ?generic" using usage_text_distinct(3) by simp
  obtain r s2 where t: "handleSendMessage_try e um ?s0 = (r, s2)"
    by (cases "handleSendMessage_try e um ?s0")
  note h = handler_after_guard [OF ne assms(2) t [unfolded um_def]]
  have mid: "training_data s2 = training_data s \<and>
             (addDoc_ok e (addDoc_calls s) \<and> getDocs_ok e \<longrightarrow>
                requests s2 = requests s @ [build_contents (messages s) (collection_docs s) um]) \<and>
             (\<exists>new. chat_history s2 = chat_history s @ new \<and> (\<forall>m \<in> set new. ?P m))"
  proof (cases "addDoc_ok e (addDoc_calls s)")
    case False
    then have "s2 = ?s0\<lparr>addDoc_calls := Suc (addDoc_calls s)\<rparr>"
      using t by (simp add: br addDoc_def)
    then show ?thesis using False by simp
  next
    case True
    let ?s1 = "onSnapshot
      (?s0\<lparr>chat_history := chat_history s @ [?user], addDoc_calls := Suc (addDoc_calls s)\<rparr>)"
    have av1: "available ?s1" using assms(2) by (simp add: available_frame onSnapshot_frame)
    have g: "getBotResponse e (messages s) um ?s1 = (r, s2)"
      using t True by (simp add: br addDoc_def)
    have a: "training_data s2 = training_data s"
      using training_data_getBotResponse [of e "messages s" um ?s1]
      by (simp add: g onSnapshot_frame)
    have b: "requests s2 = requests s @ [build_contents (messages s) (collection_docs s) um]"
      if "getDocs_ok e"
      using requests_getBotResponse [OF av1 that, of "messages s" um]
      by (simp add: g onSnapshot_frame collection_docs_def)
    obtain new where n: "chat_history s2 = (chat_history s @ [?user]) @ new"
      "\<forall>m \<in> set new. msg_text m = JStr rephrase_text \<or> msg_text m = JStr trouble_text \<or>
              (\<exists>r. fetch_result e = Body r \<and> botText r = Inr (msg_text m))"
      using getBotResponse_texts [OF av1, of e "messages s" um]
      by (auto simp: g onSnapshot_frame)
    have "\<forall>m \<in> set (?user # new). ?P m"
      using n(2) Puser usage_text_distinct(1,2) by auto
    moreover have "chat_history s2 = chat_history s @ (?user # new)" using n(1) by simp
    ultimately have c: "\<exists>new. chat_history s2 = chat_history s @ new \<and> (\<forall>m \<in> set new. ?P m)"
      by blast
    show ?thesis using a b c by blast
  qed
  then obtain new where n: "chat_history s2 = chat_history s @ new" "\<forall>m \<in> set new. ?P m"
    by blast
  have td: "training_data (snd (handleSendMessage e s)) = training_data s"
    using mid by (cases r) (simp_all add: h training_data_sendBotResponse)
  have rq: "requests (snd (handleSendMessage e s)) = requests s2"
    by (cases r) (simp_all add: h requests_sendBotResponse)
  have ch: "\<exists>new. chat_history (snd (handleSendMessage e s)) = chat_history s @ new \<and>
              (\<forall>m \<in> set new. ?P m)"
  proof (cases r)
    case (Inr u)
    then show ?thesis using n by (simp add: h)
  next
    case (Inl err)
    then have "chat_history (snd (handleSendMessage e s)) = chat_history s @ new \<or>
               chat_history (snd (handleSendMessage e s)) = chat_history s @ (new @ [?generic])"
      using chat_history_sendBotResponse [of e "JStr oops_text" "''bot''" s2] by (simp add: h n(1))
    moreover have "\<forall>m \<in> set (new @ [?generic]). ?P m" using n(2) Poops by simp
    ultimately show ?thesis using n(2) by blast
  qed
  have pl: "last (build_contents (messages s) (collection_docs s) um) =
              \<lparr>role = ''user'',
               parts = [JStr (prompt_head
                         @ join [newline] (map training_line (collection_docs s))
                         @ prompt_mid @ um)]\<rparr>"
    by (simp add: build_contents_def)
  show ?thesis
    using br td ch mid rq pl by (simp add: um_def)
qed

theorem bare_teach_goes_to_inference_witness:
  "available ready_state \<and>
   startsWith (trim ''/teach '') ''/teach'' \<and> \<not> startsWith (trim ''/teach '') teach_prefix \<and>
   training_data (snd (handleSendMessage reliable_env (ready_state\<lparr>newMessage := ''/teach ''\<rparr>))) = [] \<and>
   (\<exists>payload.
      requests (snd (handleSendMessage reliable_env (ready_state\<lparr>newMessage := ''/teach ''\<rparr>)))
        = [payload] \<and>
      last payload = \<lparr>role = ''user'', parts = [JStr (prompt_head @ prompt_mid @ ''/teach'')]\<rparr>)"
proof -
  let ?s = "ready_state\<lparr>newMessage := ''/teach ''\<rparr>"
  have t: "trim ''/teach '' = ''/teach''"
    by (simp add: trim_def white_space_def startsWith_def)
  have av: "available ?s" and av0: "available ready_state"
    by (simp_all add: available_def ready_state_def)
  have g1: "startsWith (trim ''/teach '') ''/teach''"
    and g2: "\<not> startsWith (trim ''/teach '') teach_prefix"
    by (simp_all add: t startsWith_def teach_prefix_def)
  have h1: "startsWith (trim (newMessage ?s)) ''/teach''"
    and h2: "\<not> startsWith (trim (newMessage ?s)) teach_prefix"
    using g1 g2 by simp_all
  have ok: "addDoc_ok reliable_env (addDoc_calls ?s) \<and> getDocs_ok reliable_env"
    by (simp add: reliable_env_def)
  have st: "training_data ?s = []" "requests ?s = []" "collection_docs ?s = []"
    by (simp_all add: ready_state_def collection_docs_def)
  note th = bare_teach_goes_to_inference [OF av h1 h2, of reliable_env]
  from th have c1: "training_data (snd (handleSendMessage reliable_env ?s)) = []"
    by (simp add: st)
  from th ok have c2: "\<exists>payload.
      requests (snd (handleSendMessage reliable_env ?s)) = [payload] \<and>
      last payload = \<lparr>role = ''user'', parts = [JStr (prompt_head @ prompt_mid @ ''/teach'')]\<rparr>"
    by (simp add: st join_def t)
  show ?thesis using av0 g1 g2 c1 c2 by blast
qed

end
